theory Spec2Isabelle
  imports Main
begin

section \<open>Heatmap blame annotations (heatmapBlameAnnotationProvider.ts)\<close>

subsection \<open>Data\<close>

text \<open>
  One entry of \<^verbatim>\<open>blame.lines\<close>: the line number \<^verbatim>\<open>l.line\<close> and the commit id
  \<^verbatim>\<open>l.sha\<close>.
\<close>

record BlameLine =
  line :: nat
  sha :: string

text \<open>
  \<^verbatim>\<open>new Range(startLine, startCharacter, endLine, endCharacter)\<close> of the editor API,
  and the two lines it spans.
\<close>

datatype vsRange = NewRange nat nat nat nat

fun startLine :: "vsRange \<Rightarrow> nat" where
  "startLine (NewRange sl sc el ec) = sl"

fun endLine :: "vsRange \<Rightarrow> nat" where
  "endLine (NewRange sl sc el ec) = el"

text \<open>
  The style payload of a decoration is a JavaScript object: it has an identity
  (\<open>obj_id\<close>, what \<^verbatim>\<open>===\<close> compares) and a content (\<open>payload\<close>).
  A decoration \<^verbatim>\<open>{ renderOptions, range }\<close> refers to its payload and owns its range.
  The spread \<^verbatim>\<open>{ ...heatmap, range: r }\<close> copies the reference to the payload.
\<close>

record 'p StyleObj =
  obj_id :: nat
  payload :: 'p

record 'p DecorationOptions =
  renderOptions :: "'p StyleObj"
  range' :: vsRange

text \<open>
  What \<^verbatim>\<open>this.getBlame()\<close> resolves to when blame is available: the ordered lines and
  the map \<^verbatim>\<open>blame.commits\<close> from commit id to commit.
\<close>

record 'c GitBlame =
  lines :: "BlameLine list"
  commits :: "string \<rightharpoonup> 'c"

text \<open>
  Modelled from the spec: \<^verbatim>\<open>Annotations.heatmap\<close> and
  \<^verbatim>\<open>Annotations.heatmapRenderOptions\<close> (annotations.ts) are not among the sources.
  By the spec, \<^verbatim>\<open>heatmap\<close> computes a fresh style payload from
  \<open>(commit, now, styleOptions)\<close>, deterministically. Its content is the parameter
  \<open>heatmap\<close>; that the object is fresh is the allocation of a new \<open>obj_id\<close> in
  \<open>annotate_line\<close> below.
\<close>

record ('c, 'ro, 'p) Annotations =
  heatmapRenderOptions :: 'ro
  heatmap :: "'c \<Rightarrow> int \<Rightarrow> 'ro \<Rightarrow> 'p"

text \<open>
  The state of the loop over \<^verbatim>\<open>blame.lines\<close>: \<^verbatim>\<open>this.decorations\<close>, the pass-local
  \<^verbatim>\<open>decorationsMap\<close>, the number of payload objects allocated so far (the calls of
  \<^verbatim>\<open>Annotations.heatmap\<close>) and the number of assignments to \<^verbatim>\<open>decorationsMap\<close>.
\<close>

record 'p pass =
  decorations :: "'p DecorationOptions list"
  decorationsMap :: "string \<rightharpoonup> 'p DecorationOptions"
  allocated :: nat
  cacheWrites :: nat

subsection \<open>The loop\<close>

definition lineRange :: "BlameLine \<Rightarrow> vsRange" where
  "lineRange l = NewRange (line l) 0 (line l) 0"

text \<open>
  The body of \<^verbatim>\<open>for (const l of blame.lines)\<close>, lines 28 to 51: a cache hit pushes a
  copy with the range rebound; a cache miss with an unknown commit continues; a cache
  miss with a known commit computes the heatmap, binds the range, pushes and caches it.
\<close>

definition annotate_line ::
  "('c, 'ro, 'p) Annotations \<Rightarrow> int \<Rightarrow> (string \<rightharpoonup> 'c) \<Rightarrow> 'p pass \<Rightarrow> BlameLine \<Rightarrow> 'p pass" where
  "annotate_line A now cs st l =
     (case decorationsMap st (sha l) of
        Some cached \<Rightarrow>
          st\<lparr>decorations := decorations st @ [cached\<lparr>range' := lineRange l\<rparr>]\<rparr>
      | None \<Rightarrow>
          (case cs (sha l) of
             None \<Rightarrow> st
           | Some commit \<Rightarrow>
               let fresh = \<lparr>renderOptions =
                              \<lparr>obj_id = allocated st,
                               payload = heatmap A commit now (heatmapRenderOptions A)\<rparr>,
                            range' = lineRange l\<rparr>
               in st\<lparr>decorations := decorations st @ [fresh],
                      decorationsMap := (decorationsMap st)(sha l \<mapsto> fresh),
                      allocated := Suc (allocated st),
                      cacheWrites := Suc (cacheWrites st)\<rparr>))"

primrec annotate_lines ::
  "('c, 'ro, 'p) Annotations \<Rightarrow> int \<Rightarrow> (string \<rightharpoonup> 'c) \<Rightarrow> 'p pass \<Rightarrow> BlameLine list \<Rightarrow> 'p pass" where
  "annotate_lines A now cs st [] = st"
| "annotate_lines A now cs st (l # ls) = annotate_lines A now cs (annotate_line A now cs st l) ls"

text \<open>
  Lines 22 and 23: \<^verbatim>\<open>this.decorations = []\<close> and an empty \<^verbatim>\<open>decorationsMap\<close>.
\<close>

definition newPass :: "'p pass" where
  "newPass = \<lparr>decorations = [], decorationsMap = Map.empty, allocated = 0, cacheWrites = 0\<rparr>"

definition computeAnnotations ::
  "('c, 'ro, 'p) Annotations \<Rightarrow> int \<Rightarrow> 'c GitBlame \<Rightarrow> 'p pass" where
  "computeAnnotations A now blame = annotate_lines A now (commits blame) newPass (lines blame)"

subsection \<open>The provider\<close>

datatype FileAnnotationType = Gutter | Heatmap | Hover

text \<open>
  What the pass can change: the provider's \<^verbatim>\<open>annotationType\<close> and
  \<^verbatim>\<open>decorations\<close>, the calls of \<^verbatim>\<open>this.editor.setDecorations\<close> (each with the list it
  was given), the number of calls of \<^verbatim>\<open>Annotations.heatmap\<close>, the number of entries
  written to a \<^verbatim>\<open>decorationsMap\<close>, the number of \<^verbatim>\<open>Logger.log\<close> lines and the calls
  of \<^verbatim>\<open>this.selection\<close> (with their \<^verbatim>\<open>shaOrLine\<close>).
\<close>

record ('p, 'sel) provider =
  annotationType :: "FileAnnotationType option"
  providerDecorations :: "'p DecorationOptions list"
  setDecorationsCalls :: "'p DecorationOptions list list"
  heatmapCalls :: nat
  cacheEntries :: nat
  logLines :: nat
  selectionCalls :: "'sel list"

text \<open>
  \<^verbatim>\<open>onProvideAnnotation(shaOrLine, type)\<close>. The result of \<^verbatim>\<open>await this.getBlame()\<close> and
  \<^verbatim>\<open>Date.now()\<close> are inputs. The function has no \<^verbatim>\<open>throw\<close>; it returns a boolean.
\<close>

definition onProvideAnnotation ::
  "('c, 'ro, 'p) Annotations \<Rightarrow> int \<Rightarrow> 'c GitBlame option \<Rightarrow> 'sel \<Rightarrow>
     ('p, 'sel) provider \<Rightarrow> bool \<times> ('p, 'sel) provider" where
  "onProvideAnnotation A now getBlame shaOrLine this =
     (let this1 = this\<lparr>annotationType := Some Heatmap\<rparr> in
      case getBlame of
        None \<Rightarrow> (False, this1)
      | Some blame \<Rightarrow>
          let st = computeAnnotations A now blame;
              this2 = this1\<lparr>providerDecorations := decorations st,
                            heatmapCalls := heatmapCalls this1 + allocated st,
                            cacheEntries := cacheEntries this1 + cacheWrites st\<rparr>;
              this3 = (if length (providerDecorations this2) \<noteq> 0
                       then this2\<lparr>setDecorationsCalls :=
                                      setDecorationsCalls this2 @ [providerDecorations this2]\<rparr>
                       else this2);
              this4 = this3\<lparr>logLines := Suc (logLines this3)\<rparr>
          in (True, this4\<lparr>selectionCalls := selectionCalls this4 @ [shaOrLine]\<rparr>))"

subsection \<open>Notions used in the statements\<close>

text \<open>A line resolves when \<^verbatim>\<open>blame.commits.get(l.sha)\<close> is defined.\<close>

definition resolves :: "(string \<rightharpoonup> 'c) \<Rightarrow> BlameLine \<Rightarrow> bool" where
  "resolves cs l = (cs (sha l) \<noteq> None)"

text \<open>
  A line is emitted from a loop state when its commit id is cached or resolves: the two
  branches of the loop body that push.
\<close>

definition emits :: "(string \<rightharpoonup> 'c) \<Rightarrow> 'p pass \<Rightarrow> BlameLine \<Rightarrow> bool" where
  "emits cs st l = (decorationsMap st (sha l) \<noteq> None \<or> cs (sha l) \<noteq> None)"

text \<open>
  The descriptors of a pass, each beside the blame line it was pushed for: the lines that
  resolve, in input order, beside \<^verbatim>\<open>this.decorations\<close>.
\<close>

definition emitted ::
  "('c, 'ro, 'p) Annotations \<Rightarrow> int \<Rightarrow> 'c GitBlame \<Rightarrow> (BlameLine \<times> 'p DecorationOptions) list" where
  "emitted A now blame =
     zip (filter (resolves (commits blame)) (lines blame))
         (decorations (computeAnnotations A now blame))"

text \<open>
  The invariant of the loop: every cached descriptor belongs to a commit of
  \<^verbatim>\<open>blame.commits\<close>, carries the payload computed from it and an object allocated
  in this pass; distinct commit ids have distinct payload objects; and one payload was
  allocated, and one entry written, per cached commit id.
\<close>

definition cache_inv ::
  "('c, 'ro, 'p) Annotations \<Rightarrow> int \<Rightarrow> (string \<rightharpoonup> 'c) \<Rightarrow> 'p pass \<Rightarrow> bool" where
  "cache_inv A now cs st =
     ((\<forall>k h. decorationsMap st k = Some h \<longrightarrow>
          obj_id (renderOptions h) < allocated st \<and>
          (\<exists>c. cs k = Some c \<and>
             payload (renderOptions h) = heatmap A c now (heatmapRenderOptions A))) \<and>
      (\<forall>k k' h h'. decorationsMap st k = Some h \<and> decorationsMap st k' = Some h' \<and>
          obj_id (renderOptions h) = obj_id (renderOptions h') \<longrightarrow> k = k') \<and>
      finite (dom (decorationsMap st)) \<and>
      card (dom (decorationsMap st)) = allocated st \<and>
      cacheWrites st = allocated st)"

subsection \<open>Example inputs\<close>

text \<open>
  A heatmap builder whose payload is the age of the commit, and a blame of four lines whose
  last commit id is missing from the commit map.
\<close>

definition demoAnnotations :: "(int, unit, int) Annotations" where
  "demoAnnotations = \<lparr>heatmapRenderOptions = (), heatmap = (\<lambda>commit now ro. now - commit)\<rparr>"

definition demoBlame :: "int GitBlame" where
  "demoBlame =
     \<lparr>lines = [\<lparr>line = 0, sha = ''c1''\<rparr>, \<lparr>line = 1, sha = ''c1''\<rparr>,
               \<lparr>line = 2, sha = ''c2''\<rparr>, \<lparr>line = 3, sha = ''c9''\<rparr>],
      commits = [''c1'' \<mapsto> 100, ''c2'' \<mapsto> 200]\<rparr>"

definition demoProvider :: "(int, unit) provider" where
  "demoProvider =
     \<lparr>annotationType = None, providerDecorations = [], setDecorationsCalls = [],
      heatmapCalls = 0, cacheEntries = 0, logLines = 0, selectionCalls = []\<rparr>"

section \<open>Line blame commands (showLineBlame.ts, toggleLineBlame.ts)\<close>

datatype LineAnnotationType = Trailing | HoverLine

text \<open>
  A call of a collaborator either throws an exception while the caller's body runs, or
  returns a value. What the annotation controller returns is a promise, which later
  fulfils with a value or rejects with an exception; a plain value counts as a promise
  that fulfils with it.
\<close>

type_synonym exn = string

datatype 'a outcome = Throws exn | Returns 'a

datatype 'r promise = Fulfils 'r | Rejects exn

text \<open>
  The collaborators of the two commands: \<^verbatim>\<open>configuration.get\<close> of the line annotation
  type, and the two methods of \<^verbatim>\<open>Container.lineAnnotations\<close>.
\<close>

record ('e, 'r) Collaborators =
  configuration_get :: "LineAnnotationType option outcome"
  showAnnotations :: "'e option \<Rightarrow> LineAnnotationType option \<Rightarrow> 'r promise outcome"
  toggleAnnotations :: "'e \<Rightarrow> LineAnnotationType option \<Rightarrow> 'r promise outcome"

text \<open>
  What a command does to its surroundings: reads of the configuration, calls of the
  annotation controller (with their arguments), \<^verbatim>\<open>Logger.error(ex, name)\<close> and
  \<^verbatim>\<open>window.showErrorMessage(text)\<close>.
\<close>

record 'e CommandHost =
  configReads :: nat
  controllerCalls :: "('e option \<times> LineAnnotationType option) list"
  errorLog :: "(exn \<times> string) list"
  errorMessages :: "string list"

text \<open>
  How the promise of the asynchronous \<^verbatim>\<open>execute\<close> settles, as the host sees it: it
  fulfils with what the controller's promise fulfilled with, it fulfils with the result
  of \<^verbatim>\<open>window.showErrorMessage\<close>, or it rejects: the exception reaches the host.
\<close>

datatype 'r completion = Returned 'r | ErrorMessageShown string | Rethrown exn

definition call_controller ::
  "('e option \<Rightarrow> LineAnnotationType option \<Rightarrow> 'r promise outcome) \<Rightarrow> 'e option \<Rightarrow>
     LineAnnotationType option \<Rightarrow> 'e CommandHost \<Rightarrow> (exn + 'r promise) \<times> 'e CommandHost" where
  "call_controller method editor ty host =
     (let host1 = host\<lparr>controllerCalls := controllerCalls host @ [(editor, ty)]\<rparr>
      in case method editor ty of
           Throws ex \<Rightarrow> (Inl ex, host1)
         | Returns r \<Rightarrow> (Inr r, host1))"

text \<open>
  The try block, lines 20 to 24 of both files: when \<^verbatim>\<open>args.type\<close> is undefined it is
  read from the configuration; then the controller is called and the promise it returns
  is returned, without \<^verbatim>\<open>await\<close>. \<open>Inl ex\<close> is an exception thrown inside the block,
  \<open>Inr p\<close> the promise returned from it.
\<close>

definition try_block ::
  "LineAnnotationType option outcome \<Rightarrow>
     ('e option \<Rightarrow> LineAnnotationType option \<Rightarrow> 'r promise outcome) \<Rightarrow> 'e option \<Rightarrow>
     LineAnnotationType option \<Rightarrow> 'e CommandHost \<Rightarrow> (exn + 'r promise) \<times> 'e CommandHost" where
  "try_block config_get method editor argsType host =
     (case argsType of
        None \<Rightarrow>
          (let host1 = host\<lparr>configReads := Suc (configReads host)\<rparr>
           in case config_get of
                Throws ex \<Rightarrow> (Inl ex, host1)
              | Returns ty \<Rightarrow> call_controller method editor ty host1)
      | Some ty \<Rightarrow> call_controller method editor (Some ty) host)"

text \<open>
  The catch block, lines 26 to 29: \<^verbatim>\<open>Logger.error(ex, name)\<close>, then
  \<^verbatim>\<open>return window.showErrorMessage(text)\<close>.
\<close>

definition catch_block ::
  "string \<Rightarrow> string \<Rightarrow> exn \<Rightarrow> 'e CommandHost \<Rightarrow> 'r completion \<times> 'e CommandHost" where
  "catch_block name text ex host =
     (ErrorMessageShown text,
      host\<lparr>errorLog := errorLog host @ [(ex, name)],
           errorMessages := errorMessages host @ [text]\<rparr>)"

text \<open>
  The whole \<^verbatim>\<open>try { ... } catch (ex) { ... }\<close> of the asynchronous function. An
  exception thrown inside the try block runs the catch block. A promise returned from
  the try block has left it: the promise of \<^verbatim>\<open>execute\<close> settles as that promise
  does, and when it rejects the catch block does not run.
\<close>

definition try_catch ::
  "string \<Rightarrow> string \<Rightarrow> (exn + 'r promise) \<times> 'e CommandHost \<Rightarrow>
     'r completion \<times> 'e CommandHost" where
  "try_catch name text body =
     (case body of
        (Inr (Fulfils r), host1) \<Rightarrow> (Returned r, host1)
      | (Inr (Rejects ex), host1) \<Rightarrow> (Rethrown ex, host1)
      | (Inl ex, host1) \<Rightarrow> catch_block name text ex host1)"

definition showText :: string where
  "showText = ''Unable to show line blame annotations. See output channel for more details''"

definition toggleText :: string where
  "toggleText = ''Unable to toggle line blame annotations. See output channel for more details''"

text \<open>\<^verbatim>\<open>ShowLineBlameCommand.execute(editor?, uri?, args = {})\<close>.\<close>

definition ShowLineBlameCommand_execute ::
  "('e, 'r) Collaborators \<Rightarrow> 'e option \<Rightarrow> LineAnnotationType option \<Rightarrow> 'e CommandHost \<Rightarrow>
     'r completion \<times> 'e CommandHost" where
  "ShowLineBlameCommand_execute C editor argsType host =
     try_catch ''ShowLineBlameCommand'' showText
       (try_block (configuration_get C) (showAnnotations C) editor argsType host)"

text \<open>\<^verbatim>\<open>ToggleLineBlameCommand.execute(editor, uri?, args = {})\<close>: the editor is required.\<close>

definition ToggleLineBlameCommand_execute ::
  "('e, 'r) Collaborators \<Rightarrow> 'e \<Rightarrow> LineAnnotationType option \<Rightarrow> 'e CommandHost \<Rightarrow>
     'r completion \<times> 'e CommandHost" where
  "ToggleLineBlameCommand_execute C editor argsType host =
     try_catch ''ToggleLineBlameCommand'' toggleText
       (try_block (configuration_get C) (\<lambda>e ty. toggleAnnotations C (the e) ty)
          (Some editor) argsType host)"

text \<open>The exception thrown inside the try block of a command, if there is one.\<close>

definition thrown_in_show ::
  "('e, 'r) Collaborators \<Rightarrow> 'e option \<Rightarrow> LineAnnotationType option \<Rightarrow> exn option" where
  "thrown_in_show C editor argsType =
     (case argsType of
        None \<Rightarrow> (case configuration_get C of
                   Throws ex \<Rightarrow> Some ex
                 | Returns ty \<Rightarrow> (case showAnnotations C editor ty of
                                   Throws ex \<Rightarrow> Some ex | Returns r \<Rightarrow> None))
      | Some ty \<Rightarrow> (case showAnnotations C editor (Some ty) of
                      Throws ex \<Rightarrow> Some ex | Returns r \<Rightarrow> None))"

definition thrown_in_toggle ::
  "('e, 'r) Collaborators \<Rightarrow> 'e \<Rightarrow> LineAnnotationType option \<Rightarrow> exn option" where
  "thrown_in_toggle C editor argsType =
     (case argsType of
        None \<Rightarrow> (case configuration_get C of
                   Throws ex \<Rightarrow> Some ex
                 | Returns ty \<Rightarrow> (case toggleAnnotations C editor ty of
                                   Throws ex \<Rightarrow> Some ex | Returns r \<Rightarrow> None))
      | Some ty \<Rightarrow> (case toggleAnnotations C editor (Some ty) of
                      Throws ex \<Rightarrow> Some ex | Returns r \<Rightarrow> None))"

definition newHost :: "'e CommandHost" where
  "newHost = \<lparr>configReads = 0, controllerCalls = [], errorLog = [], errorMessages = []\<rparr>"

text \<open>
  Example collaborators: the configuration store throws, the controller throws, and the
  controller returns a promise that rejects.
\<close>

definition brokenConfig :: "(nat, unit) Collaborators" where
  "brokenConfig =
     \<lparr>configuration_get = Throws ''config unavailable'',
      showAnnotations = (\<lambda>e ty. Returns (Fulfils ())),
      toggleAnnotations = (\<lambda>e ty. Returns (Fulfils ()))\<rparr>"

definition brokenController :: "(nat, unit) Collaborators" where
  "brokenController =
     \<lparr>configuration_get = Returns (Some Trailing),
      showAnnotations = (\<lambda>e ty. Throws ''editor disposed''),
      toggleAnnotations = (\<lambda>e ty. Throws ''editor disposed'')\<rparr>"

definition rejectingController :: "(nat, unit) Collaborators" where
  "rejectingController =
     \<lparr>configuration_get = Returns (Some Trailing),
      showAnnotations = (\<lambda>e ty. Returns (Rejects ''blame failed'')),
      toggleAnnotations = (\<lambda>e ty. Returns (Rejects ''blame failed''))\<rparr>"

section \<open>The explorer tree (gitExplorer.ts)\<close>

subsection \<open>Data\<close>

type_synonym uri = string

record GitRepository =
  path :: string

datatype GitExplorerView = Auto | History | Repository

datatype RefreshReason =
  ActiveEditorChanged | AutoRefreshChanged | Command | RepoChanged | ViewChanged |
  VisibleEditorsChanged

text \<open>
  The nodes this file constructs, each with the identity of the object (what
  \<^verbatim>\<open>===\<close> compares) and the constructor's arguments, the explorer itself left out:
  \<^verbatim>\<open>new RepositoryNode(uri, repo, this, true)\<close>, \<^verbatim>\<open>new RepositoriesNode(repositories, this)\<close>,
  \<^verbatim>\<open>new HistoryNode(uri, repo, this)\<close> and \<^verbatim>\<open>new MessageNode(message)\<close>.
\<close>

datatype ExplorerNode =
  RepositoryNode nat uri GitRepository bool
| RepositoriesNode nat "GitRepository list"
| HistoryNode nat uri GitRepository
| MessageNode nat string

fun node_id :: "ExplorerNode \<Rightarrow> nat" where
  "node_id (RepositoryNode i u r a) = i"
| "node_id (RepositoriesNode i rs) = i"
| "node_id (HistoryNode i u r) = i"
| "node_id (MessageNode i m) = i"

text \<open>
  The \<^verbatim>\<open>uri\<close> of a node, as the constructor received it; the list node and the message
  node receive none.
\<close>

fun node_uri :: "ExplorerNode \<Rightarrow> uri option" where
  "node_uri (RepositoryNode i u r a) = Some u"
| "node_uri (RepositoriesNode i rs) = None"
| "node_uri (HistoryNode i u r) = Some u"
| "node_uri (MessageNode i m) = None"

text \<open>A text editor: the uri of its document, or no document.\<close>

datatype TextEditor = TextEditor "uri option"

fun document_uri :: "TextEditor \<Rightarrow> uri option" where
  "document_uri (TextEditor d) = d"

text \<open>
  What the collaborators answer while one operation runs: the window's editors, the
  repository provider, the configuration, and the helpers that are not among the sources
  (\<^verbatim>\<open>GitUri.fromUri\<close>, \<^verbatim>\<open>GitUri.fromRepoPath\<close>, \<^verbatim>\<open>UriComparer.equals\<close>,
  \<^verbatim>\<open>GlyphChars.Dash\<close> and the \<^verbatim>\<open>getChildren\<close> of the node classes), taken as they come.
\<close>

record Env =
  activeTextEditor :: "TextEditor option"
  visibleTextEditors :: "TextEditor list"
  isTrackable :: "uri \<Rightarrow> bool"
  getRepository :: "uri \<Rightarrow> GitRepository option"
  getRepositories :: "GitRepository list"
  configView :: GitExplorerView
  configAutoRefresh :: bool
  fromUri :: "uri \<Rightarrow> uri"
  fromRepoPath :: "string \<Rightarrow> uri"
  uriEquals :: "uri \<Rightarrow> uri option \<Rightarrow> bool"
  dash :: string
  nodeChildren :: "ExplorerNode \<Rightarrow> ExplorerNode list"

text \<open>
  The explorer and what it acts on. Fields of the class: \<^verbatim>\<open>_root\<close>, \<^verbatim>\<open>_view\<close>,
  \<^verbatim>\<open>_loading\<close> (whether a promise is stored) and \<^verbatim>\<open>_autoRefreshDisposable\<close> (the
  identity of the subscription). Its surroundings: the object identities handed out so
  far, the root nodes constructed by \<^verbatim>\<open>getRootNode\<close>, the \<^verbatim>\<open>dispose()\<close> calls on
  nodes and on subscriptions in the order made, the subscriptions pushed to
  \<^verbatim>\<open>Container.context.subscriptions\<close>, the two workspace-state keys, the two command
  contexts, the number of times each event emitter fired, the reason of each
  \<^verbatim>\<open>refresh\<close> (its log line) and the calls of \<^verbatim>\<open>stopWatchingFileSystem\<close>.
\<close>

record GitExplorer =
  root :: "ExplorerNode option"
  view :: "GitExplorerView option"
  loading :: bool
  autoRefreshDisposable :: "nat option"
  nextId :: nat
  rootInstances :: "nat list"
  disposedNodes :: "nat list"
  disposedSubscriptions :: "nat list"
  subscriptions :: "nat list"
  wsAutoRefresh :: "bool option"
  wsView :: "GitExplorerView option"
  ctxView :: "GitExplorerView option"
  ctxAutoRefresh :: "bool option"
  autoRefreshFired :: nat
  treeDataFired :: nat
  refreshLog :: "RefreshReason list"
  watchingStopped :: nat

text \<open>A new explorer, before its constructor handles the initial configuration.\<close>

definition newExplorer :: GitExplorer where
  "newExplorer =
     \<lparr>root = None, view = None, loading = False, autoRefreshDisposable = None,
      nextId = 0, rootInstances = [], disposedNodes = [], disposedSubscriptions = [],
      subscriptions = [], wsAutoRefresh = None, wsView = None, ctxView = None,
      ctxAutoRefresh = None, autoRefreshFired = 0, treeDataFired = 0, refreshLog = [],
      watchingStopped = 0\<rparr>"

subsection \<open>The root\<close>

text \<open>\<^verbatim>\<open>a === b\<close> on two nodes or undefined: the same object, or both undefined.\<close>

definition same_instance :: "ExplorerNode option \<Rightarrow> ExplorerNode option \<Rightarrow> bool" where
  "same_instance a b = (map_option node_id a = map_option node_id b)"

text \<open>\<^verbatim>\<open>node.dispose()\<close>.\<close>

definition dispose_node :: "ExplorerNode \<Rightarrow> GitExplorer \<Rightarrow> GitExplorer" where
  "dispose_node n this = this\<lparr>disposedNodes := disposedNodes this @ [node_id n]\<rparr>"

text \<open>\<^verbatim>\<open>clearRoot()\<close>, lines 226 to 231.\<close>

definition clearRoot :: "GitExplorer \<Rightarrow> GitExplorer" where
  "clearRoot this =
     (case root this of
        None \<Rightarrow> this
      | Some old \<Rightarrow> (dispose_node old this)\<lparr>root := None\<rparr>)"

text \<open>\<^verbatim>\<open>setRoot(root)\<close>, lines 237 to 246; the boolean is its result.\<close>

definition setRoot :: "ExplorerNode option \<Rightarrow> GitExplorer \<Rightarrow> bool \<times> GitExplorer" where
  "setRoot r this =
     (if same_instance (root this) r then (False, this)
      else
        (let this1 = (case root this of None \<Rightarrow> this | Some old \<Rightarrow> dispose_node old this)
         in (True, this1\<lparr>root := r\<rparr>)))"

text \<open>
  \<^verbatim>\<open>getHistoryNode(editor)\<close>, lines 166 to 180. It returns undefined, the current root,
  or a new history node.
\<close>

definition trackable :: "Env \<Rightarrow> TextEditor \<Rightarrow> bool" where
  "trackable env e = (case document_uri e of None \<Rightarrow> False | Some u \<Rightarrow> isTrackable env u)"

definition getHistoryNode ::
  "Env \<Rightarrow> TextEditor option \<Rightarrow> GitExplorer \<Rightarrow> ExplorerNode option \<times> GitExplorer" where
  "getHistoryNode env editor this =
     (case editor of
        None \<Rightarrow> (None, this)
      | Some ed \<Rightarrow>
          if length (visibleTextEditors env) = 0 \<or>
             \<not> list_ex (trackable env) (visibleTextEditors env)
          then (None, this)
          else if \<not> trackable env ed then (root this, this)
          else
            (let u = fromUri env (the (document_uri ed))
             in case getRepository env u of
                  None \<Rightarrow> (None, this)
                | Some repo \<Rightarrow>
                    if uriEquals env u (case root this of None \<Rightarrow> None | Some n \<Rightarrow> node_uri n)
                    then (root this, this)
                    else (Some (HistoryNode (nextId this) u repo),
                          this\<lparr>nextId := Suc (nextId this),
                               rootInstances := rootInstances this @ [nextId this]\<rparr>)))"

text \<open>
  \<^verbatim>\<open>getRootNode(editor?)\<close>, lines 142 to 164. In the history view the editor defaults
  to the active one. Every other view asks for the repositories: none gives undefined,
  one gives a repository node with its last argument true, more give the list node.
\<close>

definition getRootNode ::
  "Env \<Rightarrow> TextEditor option \<Rightarrow> GitExplorer \<Rightarrow> ExplorerNode option \<times> GitExplorer" where
  "getRootNode env editor this =
     (if view this = Some History
      then getHistoryNode env (case editor of None \<Rightarrow> activeTextEditor env | Some ed \<Rightarrow> Some ed)
             (this\<lparr>loading := True\<rparr>)
      else
        (let this1 = this\<lparr>loading := True\<rparr>;
             repositories = getRepositories env
         in if length repositories = 0 then (None, this1)
            else if length repositories = 1
            then (let repo = hd repositories
                  in (Some (RepositoryNode (nextId this1) (fromRepoPath env (path repo)) repo True),
                      this1\<lparr>nextId := Suc (nextId this1),
                            rootInstances := rootInstances this1 @ [nextId this1]\<rparr>))
            else (Some (RepositoriesNode (nextId this1) repositories),
                  this1\<lparr>nextId := Suc (nextId this1),
                        rootInstances := rootInstances this1 @ [nextId this1]\<rparr>)))"

text \<open>
  \<^verbatim>\<open>this.setRoot(await this.getRootNode(editor))\<close>, the one way the file calls
  \<^verbatim>\<open>setRoot\<close> (lines 59, 84, 195 and 219).
\<close>

definition installRoot :: "Env \<Rightarrow> TextEditor option \<Rightarrow> GitExplorer \<Rightarrow> bool \<times> GitExplorer" where
  "installRoot env editor this =
     (case getRootNode env editor this of (r, this1) \<Rightarrow> setRoot r this1)"

text \<open>
  \<^verbatim>\<open>refresh(reason?, root?)\<close>, lines 186 to 199, when nothing else runs while it is
  suspended at its \<^verbatim>\<open>await\<close>. This and the following functions are the operations
  run from start to end without another operation in between; the section on suspended
  operations below splits them at their \<^verbatim>\<open>await\<close>s.
\<close>

definition refresh ::
  "Env \<Rightarrow> RefreshReason option \<Rightarrow> ExplorerNode option \<Rightarrow> GitExplorer \<Rightarrow> GitExplorer" where
  "refresh env reason rootArg this =
     (let reason1 = (case reason of None \<Rightarrow> Command | Some r \<Rightarrow> r);
          this1 = this\<lparr>refreshLog := refreshLog this @ [reason1]\<rparr>;
          this2 = (if root this1 = None \<or> (rootArg = None \<and> view this1 = Some History)
                   then snd (installRoot env (activeTextEditor env) (clearRoot this1))
                   else this1)
      in this2\<lparr>treeDataFired := Suc (treeDataFired this2)\<rparr>)"

text \<open>\<^verbatim>\<open>setView(view)\<close>, lines 248 to 261.\<close>

definition setView :: "Env \<Rightarrow> GitExplorerView \<Rightarrow> GitExplorer \<Rightarrow> GitExplorer" where
  "setView env v this =
     (if view this = Some v then this
      else
        (let this1 = (if configView env = Auto then this\<lparr>wsView := Some v\<rparr> else this);
             this2 = this1\<lparr>view := Some v, ctxView := Some v\<rparr>
         in if v \<noteq> Repository
            then this2\<lparr>watchingStopped := Suc (watchingStopped this2)\<rparr>
            else this2))"



subsection \<open>Event handlers\<close>




subsection \<open>Auto refresh\<close>

text \<open>
  \<^verbatim>\<open>workspaceState.get(WorkspaceState.GitExplorerAutoRefresh, true)\<close>: the stored flag,
  and true when none is stored.
\<close>

definition storedAutoRefresh :: "GitExplorer \<Rightarrow> bool" where
  "storedAutoRefresh this = (case wsAutoRefresh this of None \<Rightarrow> True | Some b \<Rightarrow> b)"

text \<open>Lines 272 to 275: an existing subscription is disposed and forgotten.\<close>

definition releaseSubscription :: "GitExplorer \<Rightarrow> GitExplorer" where
  "releaseSubscription this =
     (case autoRefreshDisposable this of
        None \<Rightarrow> this
      | Some d \<Rightarrow> this\<lparr>disposedSubscriptions := disposedSubscriptions this @ [d],
                        autoRefreshDisposable := None\<rparr>)"

text \<open>
  Lines 290 and 291: subscribe to \<^verbatim>\<open>Container.git.onDidChangeRepositories\<close> and push
  the subscription.
\<close>

definition subscribe :: "GitExplorer \<Rightarrow> GitExplorer" where
  "subscribe this =
     this\<lparr>autoRefreshDisposable := Some (nextId this),
          subscriptions := subscriptions this @ [nextId this],
          nextId := Suc (nextId this)\<rparr>"

text \<open>
  \<^verbatim>\<open>setAutoRefresh(enabled, workspaceEnabled?)\<close>, lines 271 to 300. The last command
  context is \<^verbatim>\<open>enabled && workspaceEnabled\<close>, which is false when \<^verbatim>\<open>enabled\<close> is.
\<close>

definition setAutoRefresh :: "Env \<Rightarrow> bool \<Rightarrow> bool option \<Rightarrow> GitExplorer \<Rightarrow> GitExplorer" where
  "setAutoRefresh env enabled workspaceEnabled this =
     (let this1 = releaseSubscription this
      in if enabled
         then
           (case workspaceEnabled of
              None \<Rightarrow>
                (let w = storedAutoRefresh this1;
                     this2 = (if w then subscribe this1 else this1)
                 in this2\<lparr>ctxAutoRefresh := Some w\<rparr>)
            | Some w \<Rightarrow>
                (let this2 = this1\<lparr>wsAutoRefresh := Some w,
                                   autoRefreshFired := Suc (autoRefreshFired this1)\<rparr>;
                     this3 = (if w then subscribe this2 else this2);
                     this4 = this3\<lparr>ctxAutoRefresh := Some w\<rparr>
                 in if w then refresh env (Some AutoRefreshChanged) None this4 else this4))
         else this1\<lparr>ctxAutoRefresh := Some False\<rparr>)"

text \<open>
  \<^verbatim>\<open>onConfigurationChanged(e)\<close>, lines 64 to 89. The answers of
  \<^verbatim>\<open>configuration.initializing(e)\<close> and \<^verbatim>\<open>configuration.changed(e, ...)\<close> are inputs.
\<close>

record ConfigurationChangeEvent =
  initializing :: bool
  changedGitExplorer :: bool
  changedGravatars :: bool
  changedAutoRefresh :: bool


subsection \<open>Children\<close>

text \<open>
  Modelled from the spec: the node classes (explorerNodes.ts) are not among the sources.
  By the spec a message node has no children; the children of the other nodes are what
  the environment gives.
\<close>

definition node_getChildren :: "Env \<Rightarrow> ExplorerNode \<Rightarrow> ExplorerNode list" where
  "node_getChildren env n = (case n of MessageNode i m \<Rightarrow> [] | _ \<Rightarrow> nodeChildren env n)"

text \<open>\<^verbatim>\<open>getChildren(node?)\<close>, lines 123 to 136.\<close>

definition getChildren ::
  "Env \<Rightarrow> ExplorerNode option \<Rightarrow> GitExplorer \<Rightarrow> ExplorerNode list \<times> GitExplorer" where
  "getChildren env node this =
     (let this1 = (if loading this then this\<lparr>loading := False\<rparr> else this)
      in case root this1 of
           None \<Rightarrow>
             if view this1 = Some History
             then ([MessageNode (nextId this1)
                      (''No active file '' @ dash env @ '' no history to show'')],
                   this1\<lparr>nextId := Suc (nextId this1)\<rparr>)
             else ([MessageNode (nextId this1) ''No repositories found''],
                   this1\<lparr>nextId := Suc (nextId this1)\<rparr>)
         | Some r \<Rightarrow>
             (case node of
                None \<Rightarrow> (node_getChildren env r, this1)
              | Some n \<Rightarrow> (node_getChildren env n, this1)))"

subsection \<open>Sequences of operations\<close>

text \<open>
  The operations that touch the root, each with what the collaborators answer while it
  runs. \<open>step\<close> is an operation that runs to its end before anything else starts.
\<close>

datatype Op =
  SetRoot Env "TextEditor option"
| ClearRoot
| Refresh Env "RefreshReason option" "ExplorerNode option"
| Reset Env GitExplorerView bool
| SwitchTo Env GitExplorerView
| ActiveEditor Env "TextEditor option"
| RepositoriesChanged Env
| VisibleEditors Env "TextEditor list"
| SetAutoRefresh Env bool "bool option"
| ConfigurationChanged Env ConfigurationChangeEvent







text \<open>
  What \<^verbatim>\<open>setAutoRefresh\<close> is about: the subscription, the subscriptions pushed and
  disposed, the stored flag, the command context and the notifications fired.
\<close>

definition autoRefreshPart ::
  "GitExplorer \<Rightarrow> nat option \<times> nat list \<times> nat list \<times> bool option \<times> bool option \<times> nat" where
  "autoRefreshPart this =
     (autoRefreshDisposable this, subscriptions this, disposedSubscriptions this,
      wsAutoRefresh this, ctxAutoRefresh this, autoRefreshFired this)"

subsection \<open>Suspended operations\<close>

text \<open>
  The functions of the explorer are asynchronous: at an \<^verbatim>\<open>await\<close> a call is
  suspended, and other calls can start or resume before it goes on. A call of
  \<^verbatim>\<open>getRootNode\<close> is suspended in one of three places: inside \<^verbatim>\<open>getHistoryNode\<close> at
  the \<^verbatim>\<open>await\<close>s of lines 172 and 174, having passed the checks of lines 168 and 170
  for an editor; inside \<^verbatim>\<open>getRootNode\<close> at the \<^verbatim>\<open>await promise\<close> of line 153; or
  with its result known, the caller's \<^verbatim>\<open>await this.getRootNode(...)\<close> not yet resumed.
\<close>

datatype Stage =
  Lookup TextEditor
| Repositories
| Deliver "ExplorerNode option"

text \<open>
  What the caller does with the root once its \<^verbatim>\<open>await this.getRootNode(...)\<close>
  resumes: line 84 of \<^verbatim>\<open>onConfigurationChanged\<close>, lines 195 to 198 of
  \<^verbatim>\<open>refresh\<close>, lines 219 to 223 of \<^verbatim>\<open>reset\<close> (with its \<^verbatim>\<open>force\<close>), lines 59 to
  61 of \<^verbatim>\<open>onActiveEditorChanged\<close>.
\<close>

datatype Cont = JustSetRoot | AfterRefresh | AfterReset bool | AfterActiveEditor

text \<open>
  A suspended call: one that waits for a root, with what the collaborators answer to it,
  or a \<^verbatim>\<open>setAutoRefresh\<close> at the \<^verbatim>\<open>await\<close> of line 284 with its flag.
\<close>

datatype Task = AwaitRoot Env Stage Cont | AwaitUpdate Env bool

type_synonym running = "GitExplorer \<times> Task list"

text \<open>
  The part of \<^verbatim>\<open>getHistoryNode\<close> that runs at the call, lines 168 and 170. Line 170
  reads \<^verbatim>\<open>this._root\<close> at this moment.
\<close>

definition getHistoryNode_begin :: "Env \<Rightarrow> TextEditor option \<Rightarrow> GitExplorer \<Rightarrow> Stage" where
  "getHistoryNode_begin env editor this =
     (case editor of
        None \<Rightarrow> Deliver None
      | Some ed \<Rightarrow>
          if length (visibleTextEditors env) = 0 \<or>
             \<not> list_ex (trackable env) (visibleTextEditors env)
          then Deliver None
          else if \<not> trackable env ed then Deliver (root this)
          else Lookup ed)"

text \<open>The part of \<^verbatim>\<open>getRootNode\<close> that runs at the call.\<close>

definition getRootNode_begin ::
  "Env \<Rightarrow> TextEditor option \<Rightarrow> GitExplorer \<Rightarrow> Stage \<times> GitExplorer" where
  "getRootNode_begin env editor this =
     (if view this = Some History
      then (getHistoryNode_begin env
              (case editor of None \<Rightarrow> activeTextEditor env | Some ed \<Rightarrow> Some ed) this,
            this\<lparr>loading := True\<rparr>)
      else (Repositories, this\<lparr>loading := True\<rparr>))"

text \<open>
  The part of \<^verbatim>\<open>getRootNode\<close> that runs when its own \<^verbatim>\<open>await\<close>s are over: lines 172
  to 179 of \<^verbatim>\<open>getHistoryNode\<close>, where line 177 reads \<^verbatim>\<open>this._root\<close> at this later
  moment, or lines 153 to 161. It gives the root that the call delivers.
\<close>

definition getRootNode_resume ::
  "Env \<Rightarrow> Stage \<Rightarrow> GitExplorer \<Rightarrow> ExplorerNode option \<times> GitExplorer" where
  "getRootNode_resume env stage this =
     (case stage of
        Deliver r \<Rightarrow> (r, this)
      | Lookup ed \<Rightarrow>
          (let u = fromUri env (the (document_uri ed))
           in case getRepository env u of
                None \<Rightarrow> (None, this)
              | Some repo \<Rightarrow>
                  if uriEquals env u (case root this of None \<Rightarrow> None | Some n \<Rightarrow> node_uri n)
                  then (root this, this)
                  else (Some (HistoryNode (nextId this) u repo),
                        this\<lparr>nextId := Suc (nextId this),
                             rootInstances := rootInstances this @ [nextId this]\<rparr>))
      | Repositories \<Rightarrow>
          (let repositories = getRepositories env
           in if length repositories = 0 then (None, this)
              else if length repositories = 1
              then (let repo = hd repositories
                    in (Some (RepositoryNode (nextId this) (fromRepoPath env (path repo)) repo True),
                        this\<lparr>nextId := Suc (nextId this),
                             rootInstances := rootInstances this @ [nextId this]\<rparr>))
              else (Some (RepositoriesNode (nextId this) repositories),
                    this\<lparr>nextId := Suc (nextId this),
                         rootInstances := rootInstances this @ [nextId this]\<rparr>)))"

text \<open>
  \<^verbatim>\<open>refresh(reason?, root?)\<close> up to its \<^verbatim>\<open>await\<close>: lines 187 to 195. When the
  condition of line 193 fails there is no \<^verbatim>\<open>await\<close> and line 198 follows at once.
\<close>

definition begin_refresh ::
  "Env \<Rightarrow> RefreshReason option \<Rightarrow> ExplorerNode option \<Rightarrow> running \<Rightarrow> running" where
  "begin_refresh env reason rootArg s =
     (case s of (this, pending) \<Rightarrow>
        (let reason1 = (case reason of None \<Rightarrow> Command | Some r \<Rightarrow> r);
             this1 = this\<lparr>refreshLog := refreshLog this @ [reason1]\<rparr>
         in if root this1 = None \<or> (rootArg = None \<and> view this1 = Some History)
            then (case getRootNode_begin env (activeTextEditor env) (clearRoot this1) of
                    (stage, this2) \<Rightarrow> (this2, pending @ [AwaitRoot env stage AfterRefresh]))
            else (this1\<lparr>treeDataFired := Suc (treeDataFired this1)\<rparr>, pending)))"

text \<open>\<^verbatim>\<open>reset(view, force)\<close> up to its \<^verbatim>\<open>await\<close>: lines 213 to 219.\<close>

definition begin_reset :: "Env \<Rightarrow> GitExplorerView \<Rightarrow> bool \<Rightarrow> running \<Rightarrow> running" where
  "begin_reset env v force s =
     (case s of (this, pending) \<Rightarrow>
        (let this1 = setView env v this;
             this2 = (if force \<and> root this1 \<noteq> None then clearRoot this1 else this1)
         in case getRootNode_begin env (activeTextEditor env) this2 of
              (stage, this3) \<Rightarrow> (this3, pending @ [AwaitRoot env stage (AfterReset force)])))"

text \<open>
  What a caller does when its \<^verbatim>\<open>await this.getRootNode(...)\<close> resumes with the root
  \<open>r\<close>. A \<^verbatim>\<open>refresh\<close> called here is not awaited: it runs up to its own
  \<^verbatim>\<open>await\<close> and is suspended in its turn.
\<close>

definition finish :: "Env \<Rightarrow> Cont \<Rightarrow> ExplorerNode option \<Rightarrow> running \<Rightarrow> running" where
  "finish env cont r s =
     (case s of (this, pending) \<Rightarrow>
        (case cont of
           JustSetRoot \<Rightarrow> (snd (setRoot r this), pending)
         | AfterRefresh \<Rightarrow>
             (let this1 = snd (setRoot r this)
              in (this1\<lparr>treeDataFired := Suc (treeDataFired this1)\<rparr>, pending))
         | AfterReset force \<Rightarrow>
             (case setRoot r this of
                (requiresRefresh, this1) \<Rightarrow>
                  if requiresRefresh \<or> force
                  then begin_refresh env (Some ViewChanged) None (this1, pending)
                  else (this1, pending))
         | AfterActiveEditor \<Rightarrow>
             (case setRoot r this of
                (changed, this1) \<Rightarrow>
                  if \<not> changed then (this1, pending)
                  else begin_refresh env (Some ActiveEditorChanged) r (this1, pending))))"

text \<open>
  A suspended call goes on, the pending calls being the others. A call waiting inside
  \<^verbatim>\<open>getRootNode\<close> computes the root and waits again, now for its caller to resume; a
  call whose root is known resumes its caller. A \<^verbatim>\<open>setAutoRefresh\<close> goes on with
  lines 286 to 299.
\<close>

definition resume_task :: "Task \<Rightarrow> running \<Rightarrow> running" where
  "resume_task task s =
     (case s of (this, pending) \<Rightarrow>
        (case task of
           AwaitRoot env stage cont \<Rightarrow>
             (case stage of
                Deliver r \<Rightarrow> finish env cont r (this, pending)
              | _ \<Rightarrow>
                  (case getRootNode_resume env stage this of
                     (r, this1) \<Rightarrow> (this1, pending @ [AwaitRoot env (Deliver r) cont])))
         | AwaitUpdate env w \<Rightarrow>
             (let this1 = this\<lparr>autoRefreshFired := Suc (autoRefreshFired this)\<rparr>;
                  this2 = (if w then subscribe this1 else this1);
                  this3 = this2\<lparr>ctxAutoRefresh := Some w\<rparr>
              in if w then begin_refresh env (Some AutoRefreshChanged) None (this3, pending)
                 else (this3, pending))))"

text \<open>
  \<^verbatim>\<open>setAutoRefresh(enabled, workspaceEnabled?)\<close> up to its \<^verbatim>\<open>await\<close> of line 284,
  where the flag has been handed to the workspace state. Without the second argument,
  and with \<^verbatim>\<open>enabled\<close> false, there is no \<^verbatim>\<open>await\<close> and the call runs to its end.
\<close>

definition begin_setAutoRefresh :: "Env \<Rightarrow> bool \<Rightarrow> bool option \<Rightarrow> running \<Rightarrow> running" where
  "begin_setAutoRefresh env enabled workspaceEnabled s =
     (case s of (this, pending) \<Rightarrow>
        (if enabled
         then
           (case workspaceEnabled of
              None \<Rightarrow> (setAutoRefresh env enabled None this, pending)
            | Some w \<Rightarrow>
                ((releaseSubscription this)\<lparr>wsAutoRefresh := Some w\<rparr>,
                 pending @ [AwaitUpdate env w]))
         else (setAutoRefresh env enabled workspaceEnabled this, pending)))"

text \<open>
  The start of each operation: what it does until it is suspended for the first time, or
  to its end when it has no \<^verbatim>\<open>await\<close> on its way.
\<close>

fun start :: "Op \<Rightarrow> running \<Rightarrow> running" where
  "start (SetRoot env editor) (this, pending) =
     (case getRootNode_begin env editor this of
        (stage, this1) \<Rightarrow> (this1, pending @ [AwaitRoot env stage JustSetRoot]))"
| "start ClearRoot (this, pending) = (clearRoot this, pending)"
| "start (Refresh env reason rootArg) (this, pending) =
     begin_refresh env reason rootArg (this, pending)"
| "start (Reset env v force) (this, pending) = begin_reset env v force (this, pending)"
| "start (SwitchTo env v) (this, pending) =
     (if view this = Some v then (this, pending) else begin_reset env v True (this, pending))"
| "start (ActiveEditor env editor) (this, pending) =
     (if view this \<noteq> Some History then (this, pending)
      else (case getRootNode_begin env editor this of
              (stage, this1) \<Rightarrow> (this1, pending @ [AwaitRoot env stage AfterActiveEditor])))"
| "start (RepositoriesChanged env) (this, pending) =
     (if view this \<noteq> Some Repository then (this, pending)
      else begin_refresh env (Some RepoChanged) None (clearRoot this, pending))"
| "start (VisibleEditors env editors) (this, pending) =
     (if root this = None \<or> view this \<noteq> Some History then (this, pending)
      else if length editors = 0 \<or> \<not> list_ex (trackable env) editors
      then begin_refresh env (Some VisibleEditorsChanged) None (clearRoot this, pending)
      else (this, pending))"
| "start (SetAutoRefresh env enabled w) (this, pending) =
     begin_setAutoRefresh env enabled w (this, pending)"
| "start (ConfigurationChanged env e) (this, pending) =
     (if \<not> initializing e \<and> \<not> changedGitExplorer e \<and> \<not> changedGravatars e
      then (this, pending)
      else
        (let this1 = (if initializing e \<or> changedAutoRefresh e
                      then setAutoRefresh env (configAutoRefresh env) None this
                      else this);
             v = (if configView env = Auto
                  then (case wsView this1 of None \<Rightarrow> Repository | Some w \<Rightarrow> w)
                  else configView env)
         in if initializing e
            then (case getRootNode_begin env (activeTextEditor env)
                         (this1\<lparr>view := Some v, ctxView := Some v\<rparr>) of
                    (stage, this2) \<Rightarrow> (this2, pending @ [AwaitRoot env stage JustSetRoot]))
            else begin_reset env v False (this1, pending)))"

text \<open>
  What happens next: an operation starts, or the suspended call at a position of the
  pending list goes on. A position beyond the list is nothing to resume.
\<close>

datatype Event = Start Op | Resume nat

fun exec_event :: "running \<Rightarrow> Event \<Rightarrow> running" where
  "exec_event s (Start op) = start op s"
| "exec_event (this, pending) (Resume k) =
     (if k < length pending
      then resume_task (pending ! k) (this, take k pending @ drop (Suc k) pending)
      else (this, pending))"

definition exec :: "Event list \<Rightarrow> running \<Rightarrow> running" where
  "exec events s = foldl exec_event s events"




subsection \<open>Example inputs\<close>

text \<open>
  An environment with no editor and no repository, and variants with one repository, with
  two, and with a trackable active editor on a file of a repository.
\<close>

definition demoEnv :: Env where
  "demoEnv =
     \<lparr>activeTextEditor = None, visibleTextEditors = [], isTrackable = (\<lambda>u. True),
      getRepository = (\<lambda>u. Some \<lparr>path = ''/a''\<rparr>), getRepositories = [],
      configView = Repository, configAutoRefresh = True, fromUri = (\<lambda>u. u),
      fromRepoPath = (\<lambda>p. p), uriEquals = (\<lambda>u v. Some u = v), dash = ''-'',
      nodeChildren = (\<lambda>n. [])\<rparr>"

definition envOne :: Env where
  "envOne = demoEnv\<lparr>getRepositories := [\<lparr>path = ''/a''\<rparr>]\<rparr>"

definition envTwo :: Env where
  "envTwo = demoEnv\<lparr>getRepositories := [\<lparr>path = ''/a''\<rparr>, \<lparr>path = ''/b''\<rparr>]\<rparr>"






section \<open>The annotation pass: properties\<close>

subsection \<open>The loop and its cache\<close>

lemma annotate_lines_append:
  "annotate_lines A now cs st (xs @ ys) = annotate_lines A now cs (annotate_lines A now cs st xs) ys"
  by (induction xs arbitrary: st) simp_all

lemma annotate_line_mono:
  "decorationsMap st k = Some h \<Longrightarrow> decorationsMap (annotate_line A now cs st l) k = Some h"
  by (auto simp: annotate_line_def Let_def split: option.splits)

lemma annotate_lines_mono:
  "decorationsMap st k = Some h \<Longrightarrow> decorationsMap (annotate_lines A now cs st ls) k = Some h"
  by (induction ls arbitrary: st) (simp_all add: annotate_line_mono)

lemma annotate_line_emits:
  "emits cs (annotate_line A now cs st l) = emits cs st"
  by (rule ext) (auto simp: annotate_line_def emits_def Let_def split: option.splits)

lemma annotate_line_decorations:
  "decorations (annotate_line A now cs st l) =
     decorations st @
       (if emits cs st l
        then [(the (decorationsMap (annotate_line A now cs st l) (sha l)))\<lparr>range' := lineRange l\<rparr>]
        else [])"
  by (auto simp: annotate_line_def emits_def Let_def split: option.splits)

lemma annotate_lines_decorations:
  "decorations (annotate_lines A now cs st ls) =
     decorations st @
       map (\<lambda>l. (the (decorationsMap (annotate_lines A now cs st ls) (sha l)))\<lparr>range' := lineRange l\<rparr>)
         (filter (emits cs st) ls)"
proof (induction ls arbitrary: st)
  case Nil
  show ?case by simp
next
  case (Cons l ls)
  let ?st1 = "annotate_line A now cs st l"
  have f: "filter (emits cs ?st1) ls = filter (emits cs st) ls"
    by (simp add: annotate_line_emits)
  show ?case
  proof (cases "emits cs st l")
    case True
    then have "\<exists>h. decorationsMap ?st1 (sha l) = Some h"
      by (auto simp: annotate_line_def emits_def Let_def split: option.splits)
    then obtain h where h: "decorationsMap ?st1 (sha l) = Some h" ..
    have "decorationsMap (annotate_lines A now cs ?st1 ls) (sha l) = Some h"
      using h by (rule annotate_lines_mono)
    with h True show ?thesis
      by (simp add: Cons.IH f annotate_line_decorations)
  next
    case False
    then show ?thesis
      by (simp add: Cons.IH f annotate_line_decorations)
  qed
qed

lemma cache_inv_newPass: "cache_inv A now cs newPass"
  by (simp add: cache_inv_def newPass_def)

lemma cache_inv_annotate_line:
  assumes "cache_inv A now cs st"
  shows "cache_inv A now cs (annotate_line A now cs st l)"
proof (cases "decorationsMap st (sha l)")
  case (Some h)
  with assms show ?thesis
    by (simp add: annotate_line_def cache_inv_def)
next
  case None
  show ?thesis
  proof (cases "cs (sha l)")
    case N: None
    with None assms show ?thesis by (simp add: annotate_line_def)
  next
    case (Some c)
    have fresh: "\<And>k h. decorationsMap st k = Some h \<Longrightarrow> obj_id (renderOptions h) \<noteq> allocated st"
      using assms by (fastforce simp: cache_inv_def)
    have notin: "sha l \<notin> dom (decorationsMap st)"
      using None by (simp add: domIff)
    show ?thesis
      unfolding cache_inv_def
    proof (intro conjI)
      show "\<forall>k h. decorationsMap (annotate_line A now cs st l) k = Some h \<longrightarrow>
          obj_id (renderOptions h) < allocated (annotate_line A now cs st l) \<and>
          (\<exists>c. cs k = Some c \<and>
             payload (renderOptions h) = heatmap A c now (heatmapRenderOptions A))"
        using assms None Some
        by (auto simp: annotate_line_def cache_inv_def Let_def less_Suc_eq)
      show "\<forall>k k' h h'. decorationsMap (annotate_line A now cs st l) k = Some h \<and>
          decorationsMap (annotate_line A now cs st l) k' = Some h' \<and>
          obj_id (renderOptions h) = obj_id (renderOptions h') \<longrightarrow> k = k'"
      proof (intro allI impI, elim conjE)
        fix k k' h h'
        assume a: "decorationsMap (annotate_line A now cs st l) k = Some h"
          and b: "decorationsMap (annotate_line A now cs st l) k' = Some h'"
          and e: "obj_id (renderOptions h) = obj_id (renderOptions h')"
        have old: "\<And>k1 k2 h1 h2. decorationsMap st k1 = Some h1 \<Longrightarrow> decorationsMap st k2 = Some h2 \<Longrightarrow>
            obj_id (renderOptions h1) = obj_id (renderOptions h2) \<Longrightarrow> k1 = k2"
          using assms unfolding cache_inv_def by blast
        have upd: "decorationsMap (annotate_line A now cs st l) =
            (decorationsMap st)(sha l \<mapsto> \<lparr>renderOptions =
                \<lparr>obj_id = allocated st,
                 payload = heatmap A c now (heatmapRenderOptions A)\<rparr>,
              range' = lineRange l\<rparr>)"
          using None Some by (simp add: annotate_line_def Let_def)
        show "k = k'"
        proof (cases "k = sha l")
          case True
          then have h: "obj_id (renderOptions h) = allocated st" using a upd by auto
          show ?thesis
          proof (cases "k' = sha l")
            case True
            with \<open>k = sha l\<close> show ?thesis by simp
          next
            case False
            then have "decorationsMap st k' = Some h'" using b upd by simp
            from fresh[OF this] h e show ?thesis by simp
          qed
        next
          case False
          then have ka: "decorationsMap st k = Some h" using a upd by simp
          show ?thesis
          proof (cases "k' = sha l")
            case True
            then have "obj_id (renderOptions h') = allocated st" using b upd by auto
            with fresh[OF ka] e show ?thesis by simp
          next
            case False
            then have "decorationsMap st k' = Some h'" using b upd by simp
            from old[OF ka this e] show ?thesis .
          qed
        qed
      qed
      show "finite (dom (decorationsMap (annotate_line A now cs st l)))"
        using assms None Some by (simp add: annotate_line_def cache_inv_def Let_def)
      show "card (dom (decorationsMap (annotate_line A now cs st l))) =
          allocated (annotate_line A now cs st l)"
        using assms None Some notin by (simp add: annotate_line_def cache_inv_def Let_def)
      show "cacheWrites (annotate_line A now cs st l) = allocated (annotate_line A now cs st l)"
        using assms None Some by (simp add: annotate_line_def cache_inv_def Let_def)
    qed
  qed
qed

lemma cache_inv_annotate_lines:
  "cache_inv A now cs st \<Longrightarrow> cache_inv A now cs (annotate_lines A now cs st ls)"
  by (induction ls arbitrary: st) (simp_all add: cache_inv_annotate_line)

lemma dom_annotate_line:
  "dom (decorationsMap (annotate_line A now cs st l)) =
     dom (decorationsMap st) \<union> (if resolves cs l then {sha l} else {})"
  by (auto simp: annotate_line_def resolves_def Let_def split: option.splits)

lemma dom_annotate_lines:
  "dom (decorationsMap (annotate_lines A now cs st ls)) =
     dom (decorationsMap st) \<union> sha ` {l \<in> set ls. resolves cs l}"
  by (induction ls arbitrary: st) (auto simp: dom_annotate_line)

lemma emits_newPass: "emits cs newPass = resolves cs"
  by (rule ext) (simp add: emits_def resolves_def newPass_def)

lemma decorations_newPass: "decorations newPass = []"
  by (simp add: newPass_def)

lemma computeAnnotations_decorations:
  "decorations (computeAnnotations A now blame) =
     map (\<lambda>l. (the (decorationsMap (computeAnnotations A now blame) (sha l)))\<lparr>range' := lineRange l\<rparr>)
       (filter (resolves (commits blame)) (lines blame))"
  unfolding computeAnnotations_def
  by (subst annotate_lines_decorations) (simp add: emits_newPass decorations_newPass)

lemma computeAnnotations_inv: "cache_inv A now (commits blame) (computeAnnotations A now blame)"
  unfolding computeAnnotations_def by (rule cache_inv_annotate_lines) (rule cache_inv_newPass)

lemma computeAnnotations_dom:
  "dom (decorationsMap (computeAnnotations A now blame)) =
     sha ` {l \<in> set (lines blame). resolves (commits blame) l}"
  unfolding computeAnnotations_def by (simp add: dom_annotate_lines newPass_def)


lemma emitted_eq:
  "emitted A now blame =
     map (\<lambda>l. (l, (the (decorationsMap (computeAnnotations A now blame) (sha l)))\<lparr>range' := lineRange l\<rparr>))
       (filter (resolves (commits blame)) (lines blame))"
  unfolding emitted_def
  by (subst computeAnnotations_decorations) (simp add: zip_map2 zip_same_conv_map)

lemma emitted_cached:
  assumes "(l, d) \<in> set (emitted A now blame)"
  shows "\<exists>h. decorationsMap (computeAnnotations A now blame) (sha l) = Some h \<and>
             d = h\<lparr>range' := lineRange l\<rparr>"
proof -
  from assms have l: "l \<in> set (lines blame)" "resolves (commits blame) l"
    and d: "d = (the (decorationsMap (computeAnnotations A now blame) (sha l)))\<lparr>range' := lineRange l\<rparr>"
    by (auto simp: emitted_eq)
  from l have "sha l \<in> dom (decorationsMap (computeAnnotations A now blame))"
    by (auto simp: computeAnnotations_dom)
  then obtain h where "decorationsMap (computeAnnotations A now blame) (sha l) = Some h"
    by blast
  with d show ?thesis by simp
qed

lemma length_decorations:
  "length (decorations (computeAnnotations A now blame)) =
     length (filter (resolves (commits blame)) (lines blame))"
  by (subst computeAnnotations_decorations) simp

lemma length_filter_all: "length (filter P xs) = length xs \<longleftrightarrow> (\<forall>x\<in>set xs. P x)"
proof
  assume "length (filter P xs) = length xs"
  then show "\<forall>x\<in>set xs. P x"
    using length_filter_less[of _ xs P] by fastforce
next
  assume "\<forall>x\<in>set xs. P x"
  then show "length (filter P xs) = length xs" by simp
qed

lemma demo_decorations:
  "decorations (computeAnnotations demoAnnotations 1000 demoBlame) =
     [\<lparr>renderOptions = \<lparr>obj_id = 0, payload = 900\<rparr>, range' = NewRange 0 0 0 0\<rparr>,
      \<lparr>renderOptions = \<lparr>obj_id = 0, payload = 900\<rparr>, range' = NewRange 1 0 1 0\<rparr>,
      \<lparr>renderOptions = \<lparr>obj_id = 1, payload = 800\<rparr>, range' = NewRange 2 0 2 0\<rparr>]"
  by (simp add: computeAnnotations_def newPass_def annotate_line_def lineRange_def Let_def
      demoAnnotations_def demoBlame_def)

lemma demo_resolving:
  "filter (resolves (commits demoBlame)) (lines demoBlame) =
     [\<lparr>line = 0, sha = ''c1''\<rparr>, \<lparr>line = 1, sha = ''c1''\<rparr>, \<lparr>line = 2, sha = ''c2''\<rparr>]"
  by (simp add: demoBlame_def resolves_def)

subsection \<open>Claims about the annotation pass\<close>

text \<open>
  Claim C1. In every pass, the descriptors emitted for two lines of the same commit id
  have the same style payload, the same object and the same content, and are equal once
  their ranges are set equal; descriptors of different commit ids have different payload
  objects. Each descriptor's range is the single line it was emitted for, its payload is
  the heatmap of its line's commit, and the number of payloads computed in the pass is the
  number of distinct commit ids that resolve: the first occurrence computes, every later
  one reuses. For the lines (0, c1), (1, c1), (2, c2) with both commits known, three
  descriptors come out: the first two share payload object 0, the third has payload
  object 1, and the ranges are the lines 0, 1 and 2.
\<close>

theorem heatmap_style_shared:
  "length (decorations (computeAnnotations A now blame)) =
     length (filter (resolves (commits blame)) (lines blame)) \<and>
   (\<forall>(l1, d1) \<in> set (emitted A now blame). \<forall>(l2, d2) \<in> set (emitted A now blame).
      range' d1 = lineRange l1 \<and>
      (sha l1 = sha l2 \<longrightarrow>
         renderOptions d1 = renderOptions d2 \<and> d1\<lparr>range' := r\<rparr> = d2\<lparr>range' := r\<rparr>) \<and>
      (sha l1 \<noteq> sha l2 \<longrightarrow> obj_id (renderOptions d1) \<noteq> obj_id (renderOptions d2))) \<and>
   (\<forall>(l, d) \<in> set (emitted A now blame).
      \<exists>c. commits blame (sha l) = Some c \<and>
          payload (renderOptions d) = heatmap A c now (heatmapRenderOptions A)) \<and>
   allocated (computeAnnotations A now blame) =
     card (sha ` {l \<in> set (lines blame). resolves (commits blame) l}) \<and>
   decorations (computeAnnotations A now
       \<lparr>lines = [\<lparr>line = 0, sha = ''c1''\<rparr>, \<lparr>line = 1, sha = ''c1''\<rparr>, \<lparr>line = 2, sha = ''c2''\<rparr>],
        commits = [''c1'' \<mapsto> a, ''c2'' \<mapsto> b]\<rparr>) =
     [\<lparr>renderOptions = \<lparr>obj_id = 0, payload = heatmap A a now (heatmapRenderOptions A)\<rparr>,
       range' = NewRange 0 0 0 0\<rparr>,
      \<lparr>renderOptions = \<lparr>obj_id = 0, payload = heatmap A a now (heatmapRenderOptions A)\<rparr>,
       range' = NewRange 1 0 1 0\<rparr>,
      \<lparr>renderOptions = \<lparr>obj_id = 1, payload = heatmap A b now (heatmapRenderOptions A)\<rparr>,
       range' = NewRange 2 0 2 0\<rparr>] \<and>
   map (\<lambda>d. (startLine (range' d), endLine (range' d)))
     (decorations (computeAnnotations A now
       \<lparr>lines = [\<lparr>line = 0, sha = ''c1''\<rparr>, \<lparr>line = 1, sha = ''c1''\<rparr>, \<lparr>line = 2, sha = ''c2''\<rparr>],
        commits = [''c1'' \<mapsto> a, ''c2'' \<mapsto> b]\<rparr>)) =
     [(0, 0), (1, 1), (2, 2)]"
proof (intro conjI)
  let ?C = "decorationsMap (computeAnnotations A now blame)"
  note inv = computeAnnotations_inv[of A now blame, unfolded cache_inv_def]
  show "length (decorations (computeAnnotations A now blame)) =
     length (filter (resolves (commits blame)) (lines blame))"
    by (rule length_decorations)
  show "\<forall>(l1, d1) \<in> set (emitted A now blame). \<forall>(l2, d2) \<in> set (emitted A now blame).
      range' d1 = lineRange l1 \<and>
      (sha l1 = sha l2 \<longrightarrow>
         renderOptions d1 = renderOptions d2 \<and> d1\<lparr>range' := r\<rparr> = d2\<lparr>range' := r\<rparr>) \<and>
      (sha l1 \<noteq> sha l2 \<longrightarrow> obj_id (renderOptions d1) \<noteq> obj_id (renderOptions d2))"
  proof (intro ballI, clarify)
    fix l1 d1 l2 d2
    assume "(l1, d1) \<in> set (emitted A now blame)" "(l2, d2) \<in> set (emitted A now blame)"
    then obtain h1 h2 where h1: "?C (sha l1) = Some h1" "d1 = h1\<lparr>range' := lineRange l1\<rparr>"
      and h2: "?C (sha l2) = Some h2" "d2 = h2\<lparr>range' := lineRange l2\<rparr>"
      using emitted_cached by blast
    have inj: "obj_id (renderOptions h1) = obj_id (renderOptions h2) \<Longrightarrow> sha l1 = sha l2"
      using inv h1(1) h2(1) by blast
    show "range' d1 = lineRange l1 \<and>
      (sha l1 = sha l2 \<longrightarrow>
         renderOptions d1 = renderOptions d2 \<and> d1\<lparr>range' := r\<rparr> = d2\<lparr>range' := r\<rparr>) \<and>
      (sha l1 \<noteq> sha l2 \<longrightarrow> obj_id (renderOptions d1) \<noteq> obj_id (renderOptions d2))"
      using h1 h2 inj by auto
  qed
  show "\<forall>(l, d) \<in> set (emitted A now blame).
      \<exists>c. commits blame (sha l) = Some c \<and>
          payload (renderOptions d) = heatmap A c now (heatmapRenderOptions A)"
  proof (intro ballI, clarify)
    fix l d
    assume "(l, d) \<in> set (emitted A now blame)"
    then obtain h where h: "?C (sha l) = Some h" "d = h\<lparr>range' := lineRange l\<rparr>"
      using emitted_cached by blast
    from inv h(1) have "\<exists>c. commits blame (sha l) = Some c \<and>
        payload (renderOptions h) = heatmap A c now (heatmapRenderOptions A)"
      by blast
    with h(2) show "\<exists>c. commits blame (sha l) = Some c \<and>
          payload (renderOptions d) = heatmap A c now (heatmapRenderOptions A)"
      by simp
  qed
  show "allocated (computeAnnotations A now blame) =
     card (sha ` {l \<in> set (lines blame). resolves (commits blame) l})"
    using inv by (simp add: computeAnnotations_dom)
  show "decorations (computeAnnotations A now
       \<lparr>lines = [\<lparr>line = 0, sha = ''c1''\<rparr>, \<lparr>line = 1, sha = ''c1''\<rparr>, \<lparr>line = 2, sha = ''c2''\<rparr>],
        commits = [''c1'' \<mapsto> a, ''c2'' \<mapsto> b]\<rparr>) =
     [\<lparr>renderOptions = \<lparr>obj_id = 0, payload = heatmap A a now (heatmapRenderOptions A)\<rparr>,
       range' = NewRange 0 0 0 0\<rparr>,
      \<lparr>renderOptions = \<lparr>obj_id = 0, payload = heatmap A a now (heatmapRenderOptions A)\<rparr>,
       range' = NewRange 1 0 1 0\<rparr>,
      \<lparr>renderOptions = \<lparr>obj_id = 1, payload = heatmap A b now (heatmapRenderOptions A)\<rparr>,
       range' = NewRange 2 0 2 0\<rparr>]"
    by (simp add: computeAnnotations_def newPass_def annotate_line_def lineRange_def Let_def)
  show "map (\<lambda>d. (startLine (range' d), endLine (range' d)))
     (decorations (computeAnnotations A now
       \<lparr>lines = [\<lparr>line = 0, sha = ''c1''\<rparr>, \<lparr>line = 1, sha = ''c1''\<rparr>, \<lparr>line = 2, sha = ''c2''\<rparr>],
        commits = [''c1'' \<mapsto> a, ''c2'' \<mapsto> b]\<rparr>)) =
     [(0, 0), (1, 1), (2, 2)]"
    by (simp add: computeAnnotations_def newPass_def annotate_line_def lineRange_def Let_def)
qed

theorem heatmap_style_shared_witness:
  "(\<lparr>line = 0, sha = ''c1''\<rparr>,
      \<lparr>renderOptions = \<lparr>obj_id = 0, payload = 900\<rparr>, range' = NewRange 0 0 0 0\<rparr>)
     \<in> set (emitted demoAnnotations 1000 demoBlame) \<and>
   (\<lparr>line = 1, sha = ''c1''\<rparr>,
      \<lparr>renderOptions = \<lparr>obj_id = 0, payload = 900\<rparr>, range' = NewRange 1 0 1 0\<rparr>)
     \<in> set (emitted demoAnnotations 1000 demoBlame) \<and>
   (\<lparr>line = 2, sha = ''c2''\<rparr>,
      \<lparr>renderOptions = \<lparr>obj_id = 1, payload = 800\<rparr>, range' = NewRange 2 0 2 0\<rparr>)
     \<in> set (emitted demoAnnotations 1000 demoBlame) \<and>
   length (decorations (computeAnnotations demoAnnotations 1000 demoBlame)) = 3 \<and>
   allocated (computeAnnotations demoAnnotations 1000 demoBlame) = 2"
proof -
  have m: "emitted demoAnnotations 1000 demoBlame =
     [(\<lparr>line = 0, sha = ''c1''\<rparr>,
         \<lparr>renderOptions = \<lparr>obj_id = 0, payload = 900\<rparr>, range' = NewRange 0 0 0 0\<rparr>),
      (\<lparr>line = 1, sha = ''c1''\<rparr>,
         \<lparr>renderOptions = \<lparr>obj_id = 0, payload = 900\<rparr>, range' = NewRange 1 0 1 0\<rparr>),
      (\<lparr>line = 2, sha = ''c2''\<rparr>,
         \<lparr>renderOptions = \<lparr>obj_id = 1, payload = 800\<rparr>, range' = NewRange 2 0 2 0\<rparr>)]"
    by (simp add: emitted_def demo_decorations demo_resolving)
  have s: "sha ` {l \<in> set (lines demoBlame). resolves (commits demoBlame) l} = {''c1'', ''c2''}"
    unfolding set_filter[symmetric] demo_resolving by simp
  from heatmap_style_shared[of demoAnnotations 1000 demoBlame]
  have "length (decorations (computeAnnotations demoAnnotations 1000 demoBlame)) =
      length (filter (resolves (commits demoBlame)) (lines demoBlame))"
    and "allocated (computeAnnotations demoAnnotations 1000 demoBlame) =
      card (sha ` {l \<in> set (lines demoBlame). resolves (commits demoBlame) l})"
    by blast+
  then show ?thesis
    by (simp add: m s demo_resolving)
qed

text \<open>
  Claim C6. A pass emits at most as many descriptors as there are blame lines, and as many
  exactly when every line's commit id resolves. The descriptors are in the order of their
  lines: the ranges of the output are the lines of the resolving input lines, in input
  order, and so are the payloads.
\<close>

theorem annotation_count_and_order:
  "length (decorations (computeAnnotations A now blame)) \<le> length (lines blame) \<and>
   (length (decorations (computeAnnotations A now blame)) = length (lines blame) \<longleftrightarrow>
      (\<forall>l \<in> set (lines blame). commits blame (sha l) \<noteq> None)) \<and>
   map range' (decorations (computeAnnotations A now blame)) =
     map lineRange (filter (resolves (commits blame)) (lines blame)) \<and>
   map (\<lambda>d. payload (renderOptions d)) (decorations (computeAnnotations A now blame)) =
     map (\<lambda>l. heatmap A (the (commits blame (sha l))) now (heatmapRenderOptions A))
       (filter (resolves (commits blame)) (lines blame))"
proof (intro conjI)
  let ?C = "decorationsMap (computeAnnotations A now blame)"
  note inv = computeAnnotations_inv[of A now blame, unfolded cache_inv_def]
  show "length (decorations (computeAnnotations A now blame)) \<le> length (lines blame)"
    by (simp add: length_decorations)
  show "length (decorations (computeAnnotations A now blame)) = length (lines blame) \<longleftrightarrow>
      (\<forall>l \<in> set (lines blame). commits blame (sha l) \<noteq> None)"
    by (simp add: length_decorations length_filter_all resolves_def)
  show "map range' (decorations (computeAnnotations A now blame)) =
     map lineRange (filter (resolves (commits blame)) (lines blame))"
    by (subst computeAnnotations_decorations) simp
  have "payload (renderOptions (the (?C (sha l)))) =
      heatmap A (the (commits blame (sha l))) now (heatmapRenderOptions A)"
    if "l \<in> set (lines blame)" "resolves (commits blame) l" for l
  proof -
    from that have "sha l \<in> dom ?C" by (auto simp: computeAnnotations_dom)
    then obtain h where h: "?C (sha l) = Some h" by blast
    with inv have "\<exists>c. commits blame (sha l) = Some c \<and>
        payload (renderOptions h) = heatmap A c now (heatmapRenderOptions A)"
      by blast
    with h show ?thesis by auto
  qed
  then show "map (\<lambda>d. payload (renderOptions d)) (decorations (computeAnnotations A now blame)) =
     map (\<lambda>l. heatmap A (the (commits blame (sha l))) now (heatmapRenderOptions A))
       (filter (resolves (commits blame)) (lines blame))"
    by (subst computeAnnotations_decorations) simp
qed

theorem annotation_count_and_order_witness:
  "length (decorations (computeAnnotations demoAnnotations 1000 demoBlame)) \<le> 4 \<and>
   length (decorations (computeAnnotations demoAnnotations 1000 demoBlame)) \<noteq> 4 \<and>
   commits demoBlame ''c9'' = None \<and>
   map range' (decorations (computeAnnotations demoAnnotations 1000 demoBlame)) =
     [NewRange 0 0 0 0, NewRange 1 0 1 0, NewRange 2 0 2 0]"
proof -
  have n: "length (lines demoBlame) = 4" and c9: "commits demoBlame ''c9'' = None"
    and l9: "\<lparr>line = 3, sha = ''c9''\<rparr> \<in> set (lines demoBlame)"
    by (simp_all add: demoBlame_def)
  from l9 c9 have "\<not> (\<forall>l \<in> set (lines demoBlame). commits demoBlame (sha l) \<noteq> None)"
    by force
  with annotation_count_and_order[of demoAnnotations 1000 demoBlame] n c9 show ?thesis
    by (simp add: demo_resolving lineRange_def)
qed

subsection \<open>A line whose commit is unknown\<close>

lemma unresolved_line_skipped:
  assumes "cache_inv A now cs st" "cs (sha l) = None"
  shows "annotate_line A now cs st l = st"
proof -
  have "decorationsMap st (sha l) = None"
  proof (cases "decorationsMap st (sha l)")
    case None
    then show ?thesis .
  next
    case (Some h)
    with assms(1) have "\<exists>c. cs (sha l) = Some c" unfolding cache_inv_def by blast
    with assms(2) show ?thesis by simp
  qed
  with assms(2) show ?thesis by (simp add: annotate_line_def)
qed

lemma unresolved_line_dropped:
  assumes "cs (sha l) = None"
  shows "annotate_lines A now cs newPass (xs @ l # ys) = annotate_lines A now cs newPass (xs @ ys)"
proof -
  have "cache_inv A now cs (annotate_lines A now cs newPass xs)"
    by (rule cache_inv_annotate_lines) (rule cache_inv_newPass)
  from unresolved_line_skipped[OF this assms] show ?thesis
    by (simp add: annotate_lines_append)
qed

text \<open>
  Claim C5. A blame line whose commit id is absent from the commit map leaves the loop
  state as it was (nothing is pushed, nothing is cached), and the whole pass, its result,
  its decorations, its call of \<^verbatim>\<open>setDecorations\<close> and its counters, is the pass
  over the input without that line. The pass still runs to its end and returns true.
\<close>

theorem unresolved_line_omitted:
  assumes "cs (sha l) = None"
  shows "annotate_line A now cs (annotate_lines A now cs newPass xs) l =
           annotate_lines A now cs newPass xs \<and>
         computeAnnotations A now \<lparr>lines = xs @ l # ys, commits = cs\<rparr> =
           computeAnnotations A now \<lparr>lines = xs @ ys, commits = cs\<rparr> \<and>
         onProvideAnnotation A now (Some \<lparr>lines = xs @ l # ys, commits = cs\<rparr>) shaOrLine this =
           onProvideAnnotation A now (Some \<lparr>lines = xs @ ys, commits = cs\<rparr>) shaOrLine this \<and>
         fst (onProvideAnnotation A now (Some \<lparr>lines = xs @ l # ys, commits = cs\<rparr>) shaOrLine this)"
proof (intro conjI)
  have "cache_inv A now cs (annotate_lines A now cs newPass xs)"
    by (rule cache_inv_annotate_lines) (rule cache_inv_newPass)
  from unresolved_line_skipped[OF this assms]
  show "annotate_line A now cs (annotate_lines A now cs newPass xs) l =
           annotate_lines A now cs newPass xs" .
  show eq: "computeAnnotations A now \<lparr>lines = xs @ l # ys, commits = cs\<rparr> =
           computeAnnotations A now \<lparr>lines = xs @ ys, commits = cs\<rparr>"
    using assms by (simp add: computeAnnotations_def unresolved_line_dropped)
  show "onProvideAnnotation A now (Some \<lparr>lines = xs @ l # ys, commits = cs\<rparr>) shaOrLine this =
           onProvideAnnotation A now (Some \<lparr>lines = xs @ ys, commits = cs\<rparr>) shaOrLine this"
    by (simp add: onProvideAnnotation_def eq)
  show "fst (onProvideAnnotation A now (Some \<lparr>lines = xs @ l # ys, commits = cs\<rparr>) shaOrLine this)"
    by (simp add: onProvideAnnotation_def Let_def)
qed

theorem unresolved_line_omitted_witness:
  "[''c1'' \<mapsto> (100::int)] (sha \<lparr>line = 1, sha = ''c9''\<rparr>) = None \<and>
   decorations (computeAnnotations demoAnnotations 1000
      \<lparr>lines = [\<lparr>line = 0, sha = ''c1''\<rparr>] @ \<lparr>line = 1, sha = ''c9''\<rparr> # [\<lparr>line = 2, sha = ''c1''\<rparr>],
       commits = [''c1'' \<mapsto> 100]\<rparr>) =
     [\<lparr>renderOptions = \<lparr>obj_id = 0, payload = 900\<rparr>, range' = NewRange 0 0 0 0\<rparr>,
      \<lparr>renderOptions = \<lparr>obj_id = 0, payload = 900\<rparr>, range' = NewRange 2 0 2 0\<rparr>]"
proof -
  have h: "[''c1'' \<mapsto> (100::int)] (sha \<lparr>line = 1, sha = ''c9''\<rparr>) = None"
    by simp
  have "decorations (computeAnnotations demoAnnotations 1000
      \<lparr>lines = [\<lparr>line = 0, sha = ''c1''\<rparr>] @ [\<lparr>line = 2, sha = ''c1''\<rparr>],
       commits = [''c1'' \<mapsto> 100]\<rparr>) =
     [\<lparr>renderOptions = \<lparr>obj_id = 0, payload = 900\<rparr>, range' = NewRange 0 0 0 0\<rparr>,
      \<lparr>renderOptions = \<lparr>obj_id = 0, payload = 900\<rparr>, range' = NewRange 2 0 2 0\<rparr>]"
    by (simp add: computeAnnotations_def newPass_def annotate_line_def lineRange_def Let_def
        demoAnnotations_def)
  with unresolved_line_omitted[where cs = "[''c1'' \<mapsto> (100::int)]"
      and l = "\<lparr>line = 1, sha = ''c9''\<rparr>" and A = demoAnnotations and now = 1000
      and xs = "[\<lparr>line = 0, sha = ''c1''\<rparr>]" and ys = "[\<lparr>line = 2, sha = ''c1''\<rparr>]"
      and shaOrLine = "()" and this = demoProvider] h
  show ?thesis by simp
qed

subsection \<open>Blame unavailable, and the empty pass\<close>

text \<open>
  Claim C7. When \<^verbatim>\<open>getBlame\<close> resolves to undefined, the pass returns false and
  changes nothing but the provider's annotation type: the provider's decorations are as
  before, \<^verbatim>\<open>Annotations.heatmap\<close> is not called, no cache entry is written and
  \<^verbatim>\<open>setDecorations\<close> is not called. The model has no error result, as the function has
  no \<^verbatim>\<open>throw\<close>.
\<close>

theorem blame_unavailable_no_work:
  "onProvideAnnotation A now None shaOrLine this = (False, this\<lparr>annotationType := Some Heatmap\<rparr>) \<and>
   fst (onProvideAnnotation A now None shaOrLine this) = False \<and>
   providerDecorations (snd (onProvideAnnotation A now None shaOrLine this)) = providerDecorations this \<and>
   heatmapCalls (snd (onProvideAnnotation A now None shaOrLine this)) = heatmapCalls this \<and>
   cacheEntries (snd (onProvideAnnotation A now None shaOrLine this)) = cacheEntries this \<and>
   setDecorationsCalls (snd (onProvideAnnotation A now None shaOrLine this)) = setDecorationsCalls this"
  by (simp add: onProvideAnnotation_def)

text \<open>
  Claim C10. When blame is available, the pass returns true and calls
  \<^verbatim>\<open>setDecorations\<close> once with the whole output when the output is not empty, and
  not at all when it is empty. When no line's commit id resolves, the output is empty and
  the calls of \<^verbatim>\<open>setDecorations\<close> are those made before the pass.
\<close>

theorem empty_pass_skips_setDecorations:
  "(let ds = decorations (computeAnnotations A now blame);
        r = onProvideAnnotation A now (Some blame) shaOrLine this
    in fst r = True \<and>
       providerDecorations (snd r) = ds \<and>
       setDecorationsCalls (snd r) = setDecorationsCalls this @ (if ds = [] then [] else [ds]) \<and>
       ((\<forall>l \<in> set (lines blame). commits blame (sha l) = None) \<longrightarrow>
          ds = [] \<and> setDecorationsCalls (snd r) = setDecorationsCalls this))"
proof -
  have "decorations (computeAnnotations A now blame) = []"
    if "\<forall>l \<in> set (lines blame). commits blame (sha l) = None"
  proof -
    from that have "filter (resolves (commits blame)) (lines blame) = []"
      by (simp add: resolves_def filter_empty_conv)
    then show ?thesis using length_decorations[of A now blame] by simp
  qed
  then show ?thesis
    by (auto simp: onProvideAnnotation_def Let_def)
qed

theorem empty_pass_skips_setDecorations_witness:
  "(let blame = \<lparr>lines = [\<lparr>line = 0, sha = ''c9''\<rparr>, \<lparr>line = 1, sha = ''c8''\<rparr>],
                  commits = [''c1'' \<mapsto> (100::int)]\<rparr>;
        r = onProvideAnnotation demoAnnotations 1000 (Some blame) () demoProvider
    in commits blame ''c9'' = None \<and> commits blame ''c8'' = None \<and>
       fst r = True \<and> setDecorationsCalls (snd r) = [])"
proof -
  let ?blame = "\<lparr>lines = [\<lparr>line = 0, sha = ''c9''\<rparr>, \<lparr>line = 1, sha = ''c8''\<rparr>],
                  commits = [''c1'' \<mapsto> (100::int)]\<rparr>"
  have h: "\<forall>l \<in> set (lines ?blame). commits ?blame (sha l) = None"
    by simp
  from empty_pass_skips_setDecorations[of demoAnnotations 1000 ?blame "()" demoProvider] h
  have "fst (onProvideAnnotation demoAnnotations 1000 (Some ?blame) () demoProvider) = True \<and>
        setDecorationsCalls (snd (onProvideAnnotation demoAnnotations 1000 (Some ?blame) () demoProvider)) =
          setDecorationsCalls demoProvider"
    unfolding Let_def by blast
  then show ?thesis
    by (simp add: Let_def demoProvider_def)
qed

section \<open>The line blame commands: properties\<close>

lemma try_block_calls:
  "length (controllerCalls (snd (try_block g m e a host))) \<le> Suc (length (controllerCalls host)) \<and>
   configReads (snd (try_block g m e a host)) \<le> Suc (configReads host) \<and>
   errorLog (snd (try_block g m e a host)) = errorLog host \<and>
   errorMessages (snd (try_block g m e a host)) = errorMessages host"
  by (simp add: try_block_def call_controller_def Let_def split: option.splits outcome.splits)

lemma try_block_show_thrown:
  "fst (try_block (configuration_get C) (showAnnotations C) e a host) =
     (case thrown_in_show C e a of
        Some ex \<Rightarrow> Inl ex
      | None \<Rightarrow> Inr (case showAnnotations C e
                         (case a of None \<Rightarrow> (case configuration_get C of Returns ty \<Rightarrow> ty)
                                  | Some ty \<Rightarrow> Some ty) of Returns p \<Rightarrow> p))"
  by (simp add: try_block_def call_controller_def thrown_in_show_def Let_def
      split: option.splits outcome.splits)

lemma try_block_toggle_thrown:
  "fst (try_block (configuration_get C) (\<lambda>e ty. toggleAnnotations C (the e) ty) (Some e) a host) =
     (case thrown_in_toggle C e a of
        Some ex \<Rightarrow> Inl ex
      | None \<Rightarrow> Inr (case toggleAnnotations C e
                         (case a of None \<Rightarrow> (case configuration_get C of Returns ty \<Rightarrow> ty)
                                  | Some ty \<Rightarrow> Some ty) of Returns p \<Rightarrow> p))"
  by (simp add: try_block_def call_controller_def thrown_in_toggle_def Let_def
      split: option.splits outcome.splits)

lemma try_catch_caught:
  "fst body = Inl ex \<Longrightarrow>
     try_catch name text body =
       (ErrorMessageShown text,
        (snd body)\<lparr>errorLog := errorLog (snd body) @ [(ex, name)],
                   errorMessages := errorMessages (snd body) @ [text]\<rparr>)"
  by (cases body) (simp add: try_catch_def catch_block_def)

lemma try_catch_calls:
  "controllerCalls (snd (try_catch name text body)) = controllerCalls (snd body) \<and>
   configReads (snd (try_catch name text body)) = configReads (snd body)"
  by (cases body) (simp add: try_catch_def catch_block_def split: sum.splits promise.splits)

text \<open>
  An exception thrown while the try block runs, by the configuration store or by a call
  of the controller that throws before it returns, is caught: it is logged under the
  command's name, and the command fulfils with the result of showing its message. The
  controller is called and the configuration read at most once each.
\<close>

lemma thrown_in_try_block_caught:
  "(thrown_in_show C editor argsType = Some ex \<longrightarrow>
      fst (ShowLineBlameCommand_execute C editor argsType host) = ErrorMessageShown showText \<and>
      errorLog (snd (ShowLineBlameCommand_execute C editor argsType host)) =
        errorLog host @ [(ex, ''ShowLineBlameCommand'')] \<and>
      errorMessages (snd (ShowLineBlameCommand_execute C editor argsType host)) =
        errorMessages host @ [showText]) \<and>
   (thrown_in_toggle C editor' argsType = Some ex \<longrightarrow>
      fst (ToggleLineBlameCommand_execute C editor' argsType host) = ErrorMessageShown toggleText \<and>
      errorLog (snd (ToggleLineBlameCommand_execute C editor' argsType host)) =
        errorLog host @ [(ex, ''ToggleLineBlameCommand'')] \<and>
      errorMessages (snd (ToggleLineBlameCommand_execute C editor' argsType host)) =
        errorMessages host @ [toggleText]) \<and>
   length (controllerCalls (snd (ShowLineBlameCommand_execute C editor argsType host)))
     \<le> Suc (length (controllerCalls host)) \<and>
   length (controllerCalls (snd (ToggleLineBlameCommand_execute C editor' argsType host)))
     \<le> Suc (length (controllerCalls host)) \<and>
   configReads (snd (ShowLineBlameCommand_execute C editor argsType host))
     \<le> Suc (configReads host) \<and>
   configReads (snd (ToggleLineBlameCommand_execute C editor' argsType host))
     \<le> Suc (configReads host)"
proof (intro conjI impI)
  let ?sb = "try_block (configuration_get C) (showAnnotations C) editor argsType host"
  let ?tb = "try_block (configuration_get C) (\<lambda>e ty. toggleAnnotations C (the e) ty)
               (Some editor') argsType host"
  {
    assume t: "thrown_in_show C editor argsType = Some ex"
    then have b: "fst ?sb = Inl ex" by (simp add: try_block_show_thrown)
    have r: "ShowLineBlameCommand_execute C editor argsType host =
        (ErrorMessageShown showText,
         (snd ?sb)\<lparr>errorLog := errorLog (snd ?sb) @ [(ex, ''ShowLineBlameCommand'')],
                  errorMessages := errorMessages (snd ?sb) @ [showText]\<rparr>)"
      unfolding ShowLineBlameCommand_execute_def by (rule try_catch_caught[OF b])
    show "fst (ShowLineBlameCommand_execute C editor argsType host) = ErrorMessageShown showText"
      by (simp add: r)
    show "errorLog (snd (ShowLineBlameCommand_execute C editor argsType host)) =
        errorLog host @ [(ex, ''ShowLineBlameCommand'')]"
      by (simp add: r try_block_calls)
    show "errorMessages (snd (ShowLineBlameCommand_execute C editor argsType host)) =
        errorMessages host @ [showText]"
      by (simp add: r try_block_calls)
  }
  {
    assume t: "thrown_in_toggle C editor' argsType = Some ex"
    then have b: "fst ?tb = Inl ex" by (simp add: try_block_toggle_thrown)
    have r: "ToggleLineBlameCommand_execute C editor' argsType host =
        (ErrorMessageShown toggleText,
         (snd ?tb)\<lparr>errorLog := errorLog (snd ?tb) @ [(ex, ''ToggleLineBlameCommand'')],
                  errorMessages := errorMessages (snd ?tb) @ [toggleText]\<rparr>)"
      unfolding ToggleLineBlameCommand_execute_def by (rule try_catch_caught[OF b])
    show "fst (ToggleLineBlameCommand_execute C editor' argsType host) = ErrorMessageShown toggleText"
      by (simp add: r)
    show "errorLog (snd (ToggleLineBlameCommand_execute C editor' argsType host)) =
        errorLog host @ [(ex, ''ToggleLineBlameCommand'')]"
      by (simp add: r try_block_calls)
    show "errorMessages (snd (ToggleLineBlameCommand_execute C editor' argsType host)) =
        errorMessages host @ [toggleText]"
      by (simp add: r try_block_calls)
  }
  show "length (controllerCalls (snd (ShowLineBlameCommand_execute C editor argsType host)))
     \<le> Suc (length (controllerCalls host))"
    by (simp add: ShowLineBlameCommand_execute_def try_catch_calls try_block_calls)
  show "length (controllerCalls (snd (ToggleLineBlameCommand_execute C editor' argsType host)))
     \<le> Suc (length (controllerCalls host))"
    by (simp add: ToggleLineBlameCommand_execute_def try_catch_calls try_block_calls)
  show "configReads (snd (ShowLineBlameCommand_execute C editor argsType host))
     \<le> Suc (configReads host)"
    by (simp add: ShowLineBlameCommand_execute_def try_catch_calls try_block_calls)
  show "configReads (snd (ToggleLineBlameCommand_execute C editor' argsType host))
     \<le> Suc (configReads host)"
    by (simp add: ToggleLineBlameCommand_execute_def try_catch_calls try_block_calls)
qed

text \<open>
  A promise of the controller that rejects is not caught, whatever the arguments: the
  command rejects with the same exception, and nothing is logged and no message shown.
\<close>

lemma rejection_not_caught:
  "showAnnotations C editor (Some ty) = Returns (Rejects ex) \<Longrightarrow>
     ShowLineBlameCommand_execute C editor (Some ty) host =
       (Rethrown ex, host\<lparr>controllerCalls := controllerCalls host @ [(editor, Some ty)]\<rparr>)"
  "toggleAnnotations C editor' (Some ty) = Returns (Rejects ex) \<Longrightarrow>
     ToggleLineBlameCommand_execute C editor' (Some ty) host =
       (Rethrown ex, host\<lparr>controllerCalls := controllerCalls host @ [(Some editor', Some ty)]\<rparr>)"
  by (simp_all add: ShowLineBlameCommand_execute_def ToggleLineBlameCommand_execute_def
      try_catch_def try_block_def call_controller_def)

text \<open>
  Claim C9 says that every exception of the annotation controller is caught, logged and
  answered with the failure message, and never reaches the host. The code returns the
  controller's promise from inside the try block without \<^verbatim>\<open>await\<close>. With a
  controller whose promise rejects with "blame failed", both commands reject with that
  exception: the controller was called once, the error log and the shown messages are
  empty.
\<close>

theorem line_blame_rejection_escapes:
  "ShowLineBlameCommand_execute rejectingController (Some 7) (Some Trailing) newHost =
     (Rethrown ''blame failed'',
      \<lparr>configReads = 0, controllerCalls = [(Some 7, Some Trailing)],
       errorLog = [], errorMessages = []\<rparr>) \<and>
   ToggleLineBlameCommand_execute rejectingController 7 None newHost =
     (Rethrown ''blame failed'',
      \<lparr>configReads = 1, controllerCalls = [(Some 7, Some Trailing)],
       errorLog = [], errorMessages = []\<rparr>) \<and>
   ShowLineBlameCommand_execute brokenController (Some 7) (Some Trailing) newHost =
     (ErrorMessageShown showText,
      \<lparr>configReads = 0, controllerCalls = [(Some 7, Some Trailing)],
       errorLog = [(''editor disposed'', ''ShowLineBlameCommand'')],
       errorMessages = [showText]\<rparr>)"
  by (simp add: ShowLineBlameCommand_execute_def ToggleLineBlameCommand_execute_def
      try_catch_def try_block_def call_controller_def catch_block_def
      rejectingController_def brokenController_def newHost_def)

section \<open>The explorer tree: properties\<close>

subsection \<open>The invariant of the root\<close>




lemma getHistoryNode_result:
  "getHistoryNode env editor this = (r, this1) \<Longrightarrow>
     (this1 = this \<and> (r = None \<or> r = root this)) \<or>
     (\<exists>n. r = Some n \<and> node_id n = nextId this \<and>
          this1 = this\<lparr>nextId := Suc (nextId this),
                       rootInstances := rootInstances this @ [nextId this]\<rparr>)"
  by (auto simp: getHistoryNode_def Let_def split: option.splits if_splits)

lemma getRootNode_result:
  "getRootNode env editor this = (r, this1) \<Longrightarrow>
     (this1 = this\<lparr>loading := True\<rparr> \<and> (r = None \<or> r = root this)) \<or>
     (\<exists>n. r = Some n \<and> node_id n = nextId this \<and>
          this1 = this\<lparr>loading := True, nextId := Suc (nextId this),
                       rootInstances := rootInstances this @ [nextId this]\<rparr>)"
proof (cases "view this = Some History")
  case True
  assume "getRootNode env editor this = (r, this1)"
  with True have "getHistoryNode env (case editor of None \<Rightarrow> activeTextEditor env | Some ed \<Rightarrow> Some ed)
             (this\<lparr>loading := True\<rparr>) = (r, this1)"
    by (simp add: getRootNode_def)
  from getHistoryNode_result[OF this] show ?thesis by auto
next
  case False
  assume "getRootNode env editor this = (r, this1)"
  with False show ?thesis
    by (auto simp: getRootNode_def Let_def split: if_splits)
qed

























subsection \<open>An operation that nothing overlaps\<close>

text \<open>
  Started on an explorer with nothing pending and resumed until nothing is pending, each
  operation does what its function run from start to end does: \<open>step\<close> is the
  operation alone, and \<open>run\<close> is the operations one at a time.
\<close>

lemma getRootNode_split:
  "getRootNode env editor this =
     (case getRootNode_begin env editor this of (stage, this1) \<Rightarrow> getRootNode_resume env stage this1)"
  by (simp add: getRootNode_def getHistoryNode_def getRootNode_begin_def getHistoryNode_begin_def
      getRootNode_resume_def Let_def split: option.splits)

lemma resume_settled: "exec_event (this, []) (Resume k) = (this, [])"
  by simp


lemma getRootNode_resume_Deliver: "getRootNode_resume env (Deliver r) this = (r, this)"
  by (simp add: getRootNode_resume_def)

lemma resume_waiting:
  "resume_task (AwaitRoot env stage cont) (this, []) =
     (case stage of
        Deliver r \<Rightarrow> finish env cont r (this, [])
      | _ \<Rightarrow> (case getRootNode_resume env stage this of
                (r, this1) \<Rightarrow> (this1, [AwaitRoot env (Deliver r) cont])))"
  by (simp add: resume_task_def split: Stage.splits)



lemma two_resumes_AfterRefresh:
  assumes "getRootNode_resume env stage this = (r, this1)"
  shows "exec_event (exec_event (this, [AwaitRoot env stage AfterRefresh]) (Resume 0)) (Resume 0) =
           ((snd (setRoot r this1))\<lparr>treeDataFired := Suc (treeDataFired (snd (setRoot r this1)))\<rparr>, [])"
  using assms
  by (cases stage)
     (simp_all add: resume_task_def finish_def getRootNode_resume_Deliver Let_def)

lemma begin_refresh_two_resumes:
  "exec_event (exec_event (begin_refresh env reason rootArg (this, [])) (Resume 0)) (Resume 0) =
     (refresh env reason rootArg this, [])"
proof -
  let ?this1 = "this\<lparr>refreshLog := refreshLog this @ [case reason of None \<Rightarrow> Command | Some r \<Rightarrow> r]\<rparr>"
  show ?thesis
  proof (cases "root this = None \<or> (rootArg = None \<and> view this = Some History)")
    case False
    then show ?thesis
      by (auto simp: begin_refresh_def refresh_def Let_def)
  next
    case True
    obtain stage this2 where b: "getRootNode_begin env (activeTextEditor env) (clearRoot ?this1) = (stage, this2)"
      by (cases "getRootNode_begin env (activeTextEditor env) (clearRoot ?this1)")
    obtain r this3 where g: "getRootNode_resume env stage this2 = (r, this3)"
      by (cases "getRootNode_resume env stage this2")
    have i: "installRoot env (activeTextEditor env) (clearRoot ?this1) = setRoot r this3"
      by (simp add: installRoot_def getRootNode_split b g)
    have "begin_refresh env reason rootArg (this, []) = (this2, [AwaitRoot env stage AfterRefresh])"
      using True b by (auto simp: begin_refresh_def Let_def)
    moreover have "refresh env reason rootArg this =
        (snd (setRoot r this3))\<lparr>treeDataFired := Suc (treeDataFired (snd (setRoot r this3)))\<rparr>"
      using True by (auto simp: refresh_def Let_def i)
    ultimately show ?thesis
      by (simp only: two_resumes_AfterRefresh[OF g])
  qed
qed

lemma begin_refresh_resumes:
  "exec_event (exec_event (exec_event (begin_refresh env reason rootArg (this, [])) (Resume 0)) (Resume 0)) (Resume 0) =
     (refresh env reason rootArg this, [])"
  "exec_event (exec_event (exec_event (exec_event (begin_refresh env reason rootArg (this, [])) (Resume 0)) (Resume 0)) (Resume 0)) (Resume 0) =
     (refresh env reason rootArg this, [])"
  by (simp_all only: begin_refresh_two_resumes resume_settled)


lemma exec_resumes_settled: "exec (replicate n (Resume 0)) (this, []) = (this, [])"
  by (induction n) (simp_all add: exec_def)
















subsection \<open>Claims about the root\<close>




text \<open>
  Claim C4. Outside the history view, \<^verbatim>\<open>getRootNode\<close> is decided by the number of
  repositories the provider returns. None: it returns undefined, the installed root is
  undefined, and \<^verbatim>\<open>getChildren\<close> then returns exactly one message node, with the
  text "No repositories found", which has no children. One: a repository node for that
  repository with its last constructor argument true. More than one: a repositories list
  node over all of them.
\<close>

theorem repository_root_by_count:
  assumes "view this \<noteq> Some History"
  shows "(getRepositories env = [] \<longrightarrow>
            fst (getRootNode env editor this) = None \<and>
            root (snd (installRoot env editor this)) = None \<and>
            fst (getChildren env' node (snd (installRoot env editor this))) =
              [MessageNode (nextId this) ''No repositories found''] \<and>
            node_getChildren env' (MessageNode (nextId this) ''No repositories found'') = []) \<and>
         (\<forall>repo. getRepositories env = [repo] \<longrightarrow>
            fst (getRootNode env editor this) =
              Some (RepositoryNode (nextId this) (fromRepoPath env (path repo)) repo True)) \<and>
         (1 < length (getRepositories env) \<longrightarrow>
            fst (getRootNode env editor this) =
              Some (RepositoriesNode (nextId this) (getRepositories env)))"
  using assms
  by (auto simp: getRootNode_def installRoot_def setRoot_def same_instance_def dispose_node_def
      getChildren_def node_getChildren_def Let_def split: option.splits)

theorem repository_root_by_count_witness:
  "view (newExplorer\<lparr>view := Some Repository\<rparr>) \<noteq> Some History \<and>
   getRepositories demoEnv = [] \<and>
   fst (getRootNode demoEnv None (newExplorer\<lparr>view := Some Repository\<rparr>)) = None \<and>
   fst (getChildren demoEnv None
          (snd (installRoot demoEnv None (newExplorer\<lparr>view := Some Repository\<rparr>)))) =
     [MessageNode 0 ''No repositories found''] \<and>
   getRepositories envOne = [\<lparr>path = ''/a''\<rparr>] \<and>
   fst (getRootNode envOne None (newExplorer\<lparr>view := Some Repository\<rparr>)) =
     Some (RepositoryNode 0 ''/a'' \<lparr>path = ''/a''\<rparr> True) \<and>
   1 < length (getRepositories envTwo) \<and>
   fst (getRootNode envTwo None (newExplorer\<lparr>view := Some Repository\<rparr>)) =
     Some (RepositoriesNode 0 [\<lparr>path = ''/a''\<rparr>, \<lparr>path = ''/b''\<rparr>])"
proof -
  let ?s = "newExplorer\<lparr>view := Some Repository\<rparr>"
  have v: "view ?s \<noteq> Some History" by simp
  have n: "nextId ?s = 0" by (simp add: newExplorer_def)
  have e0: "getRepositories demoEnv = []" by (simp add: demoEnv_def)
  have e1: "getRepositories envOne = [\<lparr>path = ''/a''\<rparr>]"
    "fromRepoPath envOne (path \<lparr>path = ''/a''\<rparr>) = ''/a''"
    by (simp_all add: envOne_def demoEnv_def)
  have e2: "getRepositories envTwo = [\<lparr>path = ''/a''\<rparr>, \<lparr>path = ''/b''\<rparr>]"
    by (simp add: envTwo_def demoEnv_def)
  from repository_root_by_count[OF v, of demoEnv None demoEnv None] e0 n
  have a: "fst (getRootNode demoEnv None ?s) = None"
    "fst (getChildren demoEnv None (snd (installRoot demoEnv None ?s))) =
       [MessageNode 0 ''No repositories found'']"
    by simp_all
  from repository_root_by_count[OF v, of envOne None demoEnv None] e1 n
  have b: "fst (getRootNode envOne None ?s) = Some (RepositoryNode 0 ''/a'' \<lparr>path = ''/a''\<rparr> True)"
    by simp
  from repository_root_by_count[OF v, of envTwo None demoEnv None] e2 n
  have c: "fst (getRootNode envTwo None ?s) =
      Some (RepositoriesNode 0 [\<lparr>path = ''/a''\<rparr>, \<lparr>path = ''/b''\<rparr>])"
    by simp
  from v e0 e1 e2 a b c show ?thesis by simp
qed

subsection \<open>Auto refresh\<close>

lemma autoRefreshPart_clearRoot: "autoRefreshPart (clearRoot this) = autoRefreshPart this"
  by (simp add: autoRefreshPart_def clearRoot_def dispose_node_def split: option.splits)

lemma refreshLog_clearRoot: "refreshLog (clearRoot this) = refreshLog this"
  by (simp add: clearRoot_def dispose_node_def split: option.splits)

lemma autoRefreshPart_setRoot: "autoRefreshPart (snd (setRoot r this)) = autoRefreshPart this"
  by (simp add: autoRefreshPart_def setRoot_def dispose_node_def Let_def split: option.splits)

lemma refreshLog_setRoot: "refreshLog (snd (setRoot r this)) = refreshLog this"
  by (simp add: setRoot_def dispose_node_def Let_def split: option.splits)

lemma getRootNode_frame:
  "autoRefreshPart (snd (getRootNode env editor this)) = autoRefreshPart this \<and>
   refreshLog (snd (getRootNode env editor this)) = refreshLog this"
proof -
  obtain r this1 where g: "getRootNode env editor this = (r, this1)"
    by (cases "getRootNode env editor this")
  from getRootNode_result[OF g] show ?thesis
    by (auto simp: g autoRefreshPart_def)
qed

lemma installRoot_frame:
  "autoRefreshPart (snd (installRoot env editor this)) = autoRefreshPart this \<and>
   refreshLog (snd (installRoot env editor this)) = refreshLog this"
proof -
  obtain r this1 where g: "getRootNode env editor this = (r, this1)"
    by (cases "getRootNode env editor this")
  with getRootNode_frame[of env editor this]
  have "autoRefreshPart this1 = autoRefreshPart this" "refreshLog this1 = refreshLog this"
    by simp_all
  then show ?thesis
    by (simp add: installRoot_def g autoRefreshPart_setRoot refreshLog_setRoot)
qed

lemma autoRefreshPart_upd:
  "autoRefreshPart (this\<lparr>refreshLog := x\<rparr>) = autoRefreshPart this"
  "autoRefreshPart (this\<lparr>treeDataFired := y\<rparr>) = autoRefreshPart this"
  by (simp_all add: autoRefreshPart_def)

lemma refresh_frame:
  "autoRefreshPart (refresh env reason rootArg this) = autoRefreshPart this \<and>
   refreshLog (refresh env reason rootArg this) =
     refreshLog this @ [case reason of None \<Rightarrow> Command | Some r \<Rightarrow> r]"
  by (simp add: refresh_def Let_def autoRefreshPart_upd installRoot_frame
      autoRefreshPart_clearRoot refreshLog_clearRoot)

lemma refresh_fields:
  "autoRefreshDisposable (refresh env reason rootArg this) = autoRefreshDisposable this"
  "subscriptions (refresh env reason rootArg this) = subscriptions this"
  "disposedSubscriptions (refresh env reason rootArg this) = disposedSubscriptions this"
  "wsAutoRefresh (refresh env reason rootArg this) = wsAutoRefresh this"
  "ctxAutoRefresh (refresh env reason rootArg this) = ctxAutoRefresh this"
  "autoRefreshFired (refresh env reason rootArg this) = autoRefreshFired this"
  using refresh_frame[of env reason rootArg this]
  by (simp_all add: autoRefreshPart_def)

lemma refreshLog_refresh:
  "refreshLog (refresh env (Some reason) rootArg this) = refreshLog this @ [reason]"
  using refresh_frame[of env "Some reason" rootArg this] by simp

lemma releaseSubscription_fields:
  "autoRefreshDisposable (releaseSubscription this) = None"
  "subscriptions (releaseSubscription this) = subscriptions this"
  "disposedSubscriptions (releaseSubscription this) =
     disposedSubscriptions this @ (case autoRefreshDisposable this of None \<Rightarrow> [] | Some d \<Rightarrow> [d])"
  "wsAutoRefresh (releaseSubscription this) = wsAutoRefresh this"
  "ctxAutoRefresh (releaseSubscription this) = ctxAutoRefresh this"
  "autoRefreshFired (releaseSubscription this) = autoRefreshFired this"
  "refreshLog (releaseSubscription this) = refreshLog this"
  "storedAutoRefresh (releaseSubscription this) = storedAutoRefresh this"
  by (simp_all add: releaseSubscription_def storedAutoRefresh_def split: option.splits)

lemma subscribe_fields:
  "autoRefreshDisposable (subscribe this) = Some (nextId this)"
  "subscriptions (subscribe this) = subscriptions this @ [nextId this]"
  "disposedSubscriptions (subscribe this) = disposedSubscriptions this"
  "wsAutoRefresh (subscribe this) = wsAutoRefresh this"
  "ctxAutoRefresh (subscribe this) = ctxAutoRefresh this"
  "autoRefreshFired (subscribe this) = autoRefreshFired this"
  "refreshLog (subscribe this) = refreshLog this"
  by (simp_all add: subscribe_def)

text \<open>
  Claim C2, as the code has it. For every call of \<^verbatim>\<open>setAutoRefresh(enabled,
  workspaceEnabled)\<close>: the "auto-refresh toggled" notification fires exactly when
  \<^verbatim>\<open>enabled\<close> is true and \<^verbatim>\<open>workspaceEnabled\<close> was given, so only when the argument
  was given and not on every enable or disable; a tree refresh is triggered only in that
  case, exactly when the given flag is true; the flag is persisted exactly when
  \<^verbatim>\<open>enabled\<close> is true and the argument was given, and is left as stored otherwise;
  when \<^verbatim>\<open>enabled\<close> is true and the argument is omitted, the stored flag, true when
  none is stored, decides the subscription and the command context.
\<close>

theorem setAutoRefresh_effects:
  "autoRefreshFired (setAutoRefresh env enabled workspaceEnabled this) =
     autoRefreshFired this + (if enabled \<and> workspaceEnabled \<noteq> None then 1 else 0) \<and>
   refreshLog (setAutoRefresh env enabled workspaceEnabled this) =
     refreshLog this @ (if enabled \<and> workspaceEnabled = Some True then [AutoRefreshChanged] else []) \<and>
   wsAutoRefresh (setAutoRefresh env enabled workspaceEnabled this) =
     (if enabled \<and> workspaceEnabled \<noteq> None then workspaceEnabled else wsAutoRefresh this) \<and>
   (autoRefreshDisposable (setAutoRefresh env enabled workspaceEnabled this) \<noteq> None) =
     (enabled \<and> (case workspaceEnabled of None \<Rightarrow> storedAutoRefresh this | Some w \<Rightarrow> w)) \<and>
   ctxAutoRefresh (setAutoRefresh env enabled workspaceEnabled this) =
     Some (enabled \<and> (case workspaceEnabled of None \<Rightarrow> storedAutoRefresh this | Some w \<Rightarrow> w))"
proof (cases enabled)
  case False
  then show ?thesis
    by (simp add: setAutoRefresh_def Let_def releaseSubscription_fields)
next
  case True
  show ?thesis
  proof (cases workspaceEnabled)
    case None
    with True show ?thesis
      by (simp add: setAutoRefresh_def Let_def releaseSubscription_fields subscribe_fields)
  next
    case (Some w)
    with True show ?thesis
      by (cases w)
         (simp_all add: setAutoRefresh_def Let_def releaseSubscription_fields subscribe_fields
            refresh_fields refreshLog_refresh)
  qed
qed

theorem setAutoRefresh_effects_witness:
  "autoRefreshFired (setAutoRefresh demoEnv True (Some True) newExplorer) = 1 \<and>
   refreshLog (setAutoRefresh demoEnv True (Some True) newExplorer) = [AutoRefreshChanged] \<and>
   wsAutoRefresh (setAutoRefresh demoEnv True (Some True) newExplorer) = Some True \<and>
   ctxAutoRefresh (setAutoRefresh demoEnv True (Some True) newExplorer) = Some True \<and>
   autoRefreshFired (setAutoRefresh demoEnv True None newExplorer) = 0 \<and>
   refreshLog (setAutoRefresh demoEnv True None newExplorer) = [] \<and>
   ctxAutoRefresh (setAutoRefresh demoEnv True None newExplorer) = Some True"
  using setAutoRefresh_effects[of demoEnv True "Some True" newExplorer]
    setAutoRefresh_effects[of demoEnv True None newExplorer]
  by (simp add: newExplorer_def storedAutoRefresh_def)

text \<open>
  The claim C2 as it was stated says that the flag is persisted whenever the argument is
  given. With \<^verbatim>\<open>enabled\<close> false it is not: \<^verbatim>\<open>setAutoRefresh(false, false)\<close> on an
  explorer whose stored flag is true leaves the stored flag true, and fires nothing.
\<close>

theorem setAutoRefresh_disabled_keeps_flag:
  "wsAutoRefresh (setAutoRefresh demoEnv False (Some False) (newExplorer\<lparr>wsAutoRefresh := Some True\<rparr>)) =
     Some True \<and>
   autoRefreshFired (setAutoRefresh demoEnv False (Some False) (newExplorer\<lparr>wsAutoRefresh := Some True\<rparr>)) = 0"
  by (simp add: setAutoRefresh_def Let_def releaseSubscription_def newExplorer_def)


end
